theory Spec2Isabelle
  imports Main "HOL-Library.AList"
begin

section \<open>Python values used by the collector\<close>

text \<open>
  Exceptions that the modelled code can raise.  Every \<open>raise\<close>, failed
  \<open>assert\<close>, missing dictionary key and failed \<open>rindex\<close> of the source is a
  branch returning \<open>Inl\<close> of one of these.
\<close>

datatype error =
    KeyError
  | ValueError
  | AssertionError
  | AttributeError
  | RCSParseError
  | RuntimeError
  | OtherException
  | SVNCommitInternalInconsistencyError

text \<open>\<open>s.count('.')\<close>.\<close>

definition count_dots :: "string \<Rightarrow> nat" where
  "count_dots s = length (filter (\<lambda>c. c = CHR ''.'') s)"

text \<open>\<open>s.rfind(c)\<close>: the index of the last \<open>c\<close>, or \<open>-1\<close> when there is none.\<close>

definition rfind :: "char \<Rightarrow> string \<Rightarrow> int" where
  "rfind c s =
     (if c \<in> set s
      then int (length s) - 1 - int (length (takeWhile (\<lambda>x. x \<noteq> c) (rev s)))
      else - 1)"

definition rfind_dot :: "string \<Rightarrow> int" where
  "rfind_dot s = rfind CHR ''.'' s"

text \<open>The slice \<open>s[0:j]\<close>; a negative \<open>j\<close> counts from the end.\<close>

definition slice_to :: "string \<Rightarrow> int \<Rightarrow> string" where
  "slice_to s j = (if j < 0 then take (nat (int (length s) + j)) s else take (nat j) s)"

text \<open>\<open>s[:s.rindex('.')]\<close>; \<open>rindex\<close> raises \<open>ValueError\<close> when there is no dot.\<close>

definition before_last_dot :: "string \<Rightarrow> error + string" where
  "before_last_dot s =
     (if CHR ''.'' \<in> set s then Inr (slice_to s (rfind_dot s)) else Inl ValueError)"

section \<open>Revision-number calculus\<close>

definition is_trunk_revision :: "string \<Rightarrow> bool" where
  "is_trunk_revision r = (count_dots r = 1)"

definition is_branch_revision :: "string \<Rightarrow> bool" where
  "is_branch_revision r = (count_dots r \<ge> 3)"

definition is_same_line_of_development :: "string option \<Rightarrow> string option \<Rightarrow> bool" where
  "is_same_line_of_development rev1 rev2 =
     (case (rev1, rev2) of
        (Some r1, Some r2) \<Rightarrow>
          if count_dots r1 = 1 \<and> count_dots r2 = 1 then True
          else if slice_to r1 (rfind_dot r1) = slice_to r2 (rfind_dot r2) then True
          else False
      | _ \<Rightarrow> False)"

section \<open>Emitted records\<close>

datatype operation = OP_ADD | OP_CHANGE | OP_DELETE

datatype line_of_development = Trunk | Branch string

text \<open>
  \<open>CVSFile\<close>, with the constructor's arguments in order and the
  \<open>default_branch\<close> attribute that the collector assigns later.
\<close>

record CVSFile =
  cf_id :: nat
  cf_filename :: string
  cf_canonical_filename :: string
  cf_cvs_path :: string
  cf_in_attic :: bool
  cf_executable :: bool
  cf_file_size :: nat
  cf_mode :: "string option"
  cf_default_branch :: "string option"

text \<open>
  \<open>CVSRevision\<close>, with the constructor's arguments in the order in which
  \<open>set_revision_info\<close> passes them.  The file is referred to by its id.
\<close>

record CVSRevision =
  cr_id :: nat
  cr_cvs_file :: nat
  cr_timestamp :: int
  cr_digest :: string
  cr_prev_id :: "nat option"
  cr_next_id :: "nat option"
  cr_op :: operation
  cr_rev :: string
  cr_deltatext_exists :: bool
  cr_lod :: line_of_development
  cr_first_on_branch :: bool
  cr_tags :: "string list"
  cr_branches :: "string list"

section \<open>Per-file collection areas\<close>

text \<open>
  \<open>_RevisionData\<close>.  \<open>rd_branches_data\<close> holds the branch numbers of the
  \<open>_BranchData\<close> objects handed to the constructor.
\<close>

record RevisionData =
  rd_cvs_rev_id :: nat
  rd_c_rev :: "CVSRevision option"
  rd_rev :: string
  rd_timestamp :: int
  rd_author :: string
  rd_original_timestamp :: int
  rd_adjusted :: bool
  rd_state :: string
  rd_branches_data :: "string list"
  rd_parent :: "string option"
  rd_child :: "string option"
  rd_branch_numbers :: "string list"

definition new_RevisionData ::
  "nat \<Rightarrow> string \<Rightarrow> int \<Rightarrow> string \<Rightarrow> string \<Rightarrow> string list \<Rightarrow> RevisionData" where
  "new_RevisionData cvs_rev_id revision timestamp author state branches_data =
     \<lparr> rd_cvs_rev_id = cvs_rev_id, rd_c_rev = None, rd_rev = revision,
       rd_timestamp = timestamp, rd_author = author,
       rd_original_timestamp = timestamp, rd_adjusted = False, rd_state = state,
       rd_branches_data = branches_data, rd_parent = None, rd_child = None,
       rd_branch_numbers = [] \<rparr>"

definition adjust_timestamp :: "RevisionData \<Rightarrow> int \<Rightarrow> RevisionData" where
  "adjust_timestamp d timestamp = d\<lparr> rd_adjusted := True, rd_timestamp := timestamp \<rparr>"

definition timestamp_was_adjusted :: "RevisionData \<Rightarrow> bool" where
  "timestamp_was_adjusted d = rd_adjusted d"

text \<open>
  The dictionary \<open>_rev_data\<close>, keyed by revision number.  An association list
  fixes the order in which \<open>values()\<close> enumerates it; a new key goes to the end
  and an assignment to an existing key keeps its place.
\<close>

type_synonym rev_table = "(string \<times> RevisionData) list"

section \<open>Timestamp resynchronisation\<close>

text \<open>
  \<open>_resync_chain\<close>, started at the revision stored under \<open>cur\<close>.  The loop
  follows parent links for as long as it has to adjust, so on a table whose
  parent links form a cycle it does not return: the result is \<open>None\<close> then.
  After each adjustment the method formats a log line with
  \<open>time.ctime(old_timestamp)\<close>; \<open>ctime\<close> is that function of the platform, which
  raises for a timestamp that it cannot convert.  The adjustment is made before
  the call.
\<close>

partial_function (option) resync_chain ::
  "(int \<Rightarrow> error + string) \<Rightarrow> rev_table \<Rightarrow> string \<Rightarrow> bool
     \<Rightarrow> (error + rev_table \<times> bool) option" where
  "resync_chain ctime tab cur resynced =
     (case map_of tab cur of
        None \<Rightarrow> Some (Inl KeyError)
      | Some d \<Rightarrow>
          (case rd_parent d of
             None \<Rightarrow> Some (Inr (tab, resynced))
           | Some p \<Rightarrow>
               (case map_of tab p of
                  None \<Rightarrow> Some (Inl KeyError)
                | Some pd \<Rightarrow>
                    if rd_timestamp pd < rd_timestamp d then Some (Inr (tab, resynced))
                    else (case ctime (rd_timestamp pd) of
                            Inl e \<Rightarrow> Some (Inl e)
                          | Inr old_time \<Rightarrow>
                              resync_chain ctime
                                (AList.update p (adjust_timestamp pd (rd_timestamp d - 1)) tab)
                                p True))))"

declare resync_chain.simps [code]

text \<open>
  One pass of the \<open>for\<close> loop of \<open>tree_completed\<close> over the revisions still to
  visit: it stops at the first chain that resynced something (\<open>break\<close>), and
  reports \<open>False\<close> when it ran to the end (\<open>else\<close>).
\<close>

fun resync_scan ::
  "(int \<Rightarrow> error + string) \<Rightarrow> string list \<Rightarrow> rev_table
     \<Rightarrow> (error + rev_table \<times> bool) option" where
  "resync_scan ctime [] tab = Some (Inr (tab, False))"
| "resync_scan ctime (k # ks) tab =
     Option.bind (resync_chain ctime tab k False)
       (\<lambda>r. case r of
               Inl e \<Rightarrow> Some (Inl e)
             | Inr (tab', resynced) \<Rightarrow>
                 if resynced then Some (Inr (tab', True)) else resync_scan ctime ks tab')"

text \<open>The \<open>while True\<close> loop of \<open>tree_completed\<close>.\<close>

partial_function (option) resync_loop ::
  "(int \<Rightarrow> error + string) \<Rightarrow> rev_table \<Rightarrow> (error + rev_table) option" where
  "resync_loop ctime tab =
     Option.bind (resync_scan ctime (map fst tab) tab)
       (\<lambda>r. case r of
               Inl e \<Rightarrow> Some (Inl e)
             | Inr (tab', resynced) \<Rightarrow>
                 if resynced then resync_loop ctime tab' else Some (Inr tab'))"

declare resync_loop.simps [code]

section \<open>Regular expressions\<close>

text \<open>
  The fragment of Python's \<open>re\<close> syntax that the two patterns of the module
  use: \<open>\d\<close>, a literal character, concatenation, greedy \<open>?\<close> and greedy
  \<open>+\<close>.
\<close>

datatype regex = Digit | Lit char | Cat regex regex | Opt regex | Plus regex

definition is_digit :: "char \<Rightarrow> bool" where
  "is_digit c = (c \<in> set ''0123456789'')"

text \<open>
  \<open>matches r s\<close> lists what is left of \<open>s\<close> after each way of matching \<open>r\<close>
  at its start, in the order in which a backtracking matcher tries them: a greedy
  operator tries one more repetition before it tries to stop.
\<close>

function matches :: "regex \<Rightarrow> string \<Rightarrow> string list" where
  "matches Digit s = (case s of [] \<Rightarrow> [] | c # cs \<Rightarrow> if is_digit c then [cs] else [])"
| "matches (Lit a) s = (case s of [] \<Rightarrow> [] | c # cs \<Rightarrow> if c = a then [cs] else [])"
| "matches (Cat r1 r2) s = concat (map (matches r2) (matches r1 s))"
| "matches (Opt r) s = matches r s @ [s]"
| "matches (Plus r) s =
     concat (map (\<lambda>s'. (if length s' < length s then matches (Plus r) s' else []) @ [s'])
                 (matches r s))"
  by pat_completeness auto
termination
  by (relation "measure size <*lex*> measure length") auto

text \<open>\<open>$\<close> without \<open>re.MULTILINE\<close>: the end of the string, or just before a final newline.\<close>

definition at_end :: "string \<Rightarrow> bool" where
  "at_end s = (s = [] \<or> s = [CHR 0x0A])"

definition consumed :: "string \<Rightarrow> string \<Rightarrow> string" where
  "consumed s s' = take (length s - length s') s"

text \<open>The three parts of \<open>branch_tag_re\<close> between \<open>^\<close> and \<open>$\<close>.\<close>

definition digit_group_dot :: regex where
  "digit_group_dot = Cat (Plus Digit) (Lit CHR ''.'')"

definition branch_tag_re_group1 :: regex where
  "branch_tag_re_group1 = Plus (Cat digit_group_dot digit_group_dot)"

definition branch_tag_re_zero :: regex where
  "branch_tag_re_zero = Opt (Cat (Lit CHR ''0'') (Lit CHR ''.''))"

definition branch_tag_re_group2 :: regex where
  "branch_tag_re_group2 = Plus Digit"

text \<open>
  \<open>branch_tag_re.match(revision)\<close>: \<open>None\<close> when there is no match, otherwise
  the texts of the two groups of the first match found.
\<close>

definition branch_tag_re_match :: "string \<Rightarrow> (string \<times> string) option" where
  "branch_tag_re_match s =
     (case concat (map (\<lambda>s1.
             concat (map (\<lambda>s2.
               concat (map (\<lambda>s3. if at_end s3 then [(consumed s s1, consumed s2 s3)] else [])
                           (matches branch_tag_re_group2 s2)))
               (matches branch_tag_re_zero s1)))
             (matches branch_tag_re_group1 s)) of
        [] \<Rightarrow> None
      | g # _ \<Rightarrow> Some g)"

text \<open>\<open>vendor_revision.match(rev)\<close> as a truth value.\<close>

definition vendor_revision_re :: regex where
  "vendor_revision_re =
     Cat (Lit CHR ''1'') (Cat (Lit CHR ''.'') (Cat (Lit CHR ''1'') (Cat (Lit CHR ''.'')
       (Cat (Lit CHR ''1'') (Cat (Lit CHR ''.'') (Plus Digit))))))"

definition vendor_revision_match :: "string \<Rightarrow> bool" where
  "vendor_revision_match s = list_ex at_end (matches vendor_revision_re s)"

section \<open>The global collector's state\<close>

text \<open>\<open>_BranchData\<close> and \<open>_TagData\<close>.\<close>

record BranchData =
  bd_id :: nat
  bd_name :: string
  bd_branch_number :: string
  bd_parent :: string
  bd_child :: "string option"

record TagData =
  td_id :: nat
  td_name :: string
  td_rev :: string

text \<open>
  The calls made on the symbol database, in order: \<open>register_branch_creation\<close>,
  \<open>register_tag_creation\<close>, \<open>register_branch_commit\<close> and
  \<open>register_branch_blocker\<close>.
\<close>

datatype symbol_event =
    BranchCreation string
  | TagCreation string
  | BranchCommit string
  | BranchBlocker string string

text \<open>
  The entries of \<open>fatal_errors\<close>.  Each message is a fixed format filled with
  the arguments kept here: the symbol and the file name, the two path names, the
  path name.
\<close>

datatype fatal_error =
    MultipleDefinitions string string
  | BothInAttic string string
  | NotValidRCS string

text \<open>
  \<open>CollectData\<close>.  The revision database, the all-revisions file, the resync
  file, the statistics keeper and the file database are lists in the order of
  the writes; the metadata database is a dictionary from digest to author and
  log message.  A key generator is the id that it hands out next.
\<close>

record CollectData =
  cd_cvs_revs_db :: "CVSRevision list"
  cd_all_revs :: "nat list"
  cd_resync :: "(int \<times> string \<times> int) list"
  cd_metadata_db :: "(string \<times> string \<times> string) list"
  cd_fatal_errors :: "fatal_error list"
  cd_num_files :: nat
  cd_symbol_db :: "symbol_event list"
  cd_stats_keeper :: "nat list"
  cd_file_key_generator :: nat
  cd_key_generator :: nat
  cd_cvs_file_db :: "CVSFile list"

text \<open>
  Modelled from the spec: the class \<open>KeyGenerator\<close> is not among the sources;
  the spec calls the generators monotone counters.  \<open>gen_id\<close> returns the next
  id and the generator's new state.
\<close>

definition gen_id :: "nat \<Rightarrow> nat \<times> nat" where
  "gen_id k = (k, k + 1)"

section \<open>What the collector is given from outside\<close>

text \<open>The callbacks of \<open>cvs2svn_rcsparse.Sink\<close> that the collector overrides.\<close>

datatype sink_event =
    SetPrincipalBranch "string option"
  | SetExpansion string
  | DefineTag string string
  | AdminCompleted
  | DefineRevision string int string string "string list" "string option"
  | TreeCompleted
  | SetRevisionInfo string string string
  | ParseCompleted

text \<open>
  The configuration, the library functions and the file system that the code
  reads: the substitutions \<open>pattern.sub(replacement, _)\<close> of
  \<open>Ctx().symbol_transforms\<close> (a substitution can raise, on a replacement
  template that names a group the pattern lacks),
  \<open>Ctx().cvs_repository.get_cvs_path\<close>, \<open>time.ctime\<close>, the digest
  \<open>sha.new(_).hexdigest()\<close>, \<open>os.stat\<close> (the size and the owner's execute bit,
  or \<open>None\<close> where it raises), \<open>os.path.exists\<close>, and the parser: for a path
  name, the callbacks that \<open>cvs2svn_rcsparse.parse\<close> makes and the exception
  that it raises after them, if any.
\<close>

record Env =
  env_symbol_transforms :: "(string \<Rightarrow> error + string) list"
  env_get_cvs_path :: "string \<Rightarrow> string"
  env_ctime :: "int \<Rightarrow> error + string"
  env_sha_hexdigest :: "string \<Rightarrow> string"
  env_stat :: "string \<Rightarrow> (nat \<times> bool) option"
  env_exists :: "string \<Rightarrow> bool"
  env_parse :: "string \<Rightarrow> sink_event list \<times> error option"







definition startswith :: "string \<Rightarrow> string \<Rightarrow> bool" where
  "startswith s t = (take (length t) s = t)"

section \<open>The symbol collector\<close>

text \<open>
  The state of one \<open>_FileDataCollector\<close> together with its
  \<open>_SymbolDataCollector\<close> (the fields \<open>sdc_\<close>).  The dictionaries are
  association lists, enumerated in list order.
\<close>

record FileDataCollector =
  fdc_cvs_file :: CVSFile
  sdc_known_symbols :: "string list"
  sdc_branches_data :: "(string \<times> BranchData) list"
  sdc_tags_data :: "(string \<times> TagData list) list"
  fdc_rev_data :: rev_table
  fdc_rev_order :: "string list"
  fdc_primary_dependencies :: "(string \<times> string) list"
  fdc_default_branch :: "string option"
  fdc_first_non_vendor_revision_date :: "int option"

text \<open>
  A method that can raise returns an error or its result, next to the
  collector's state as the method left it: what was written before an exception
  stays written.
\<close>

type_synonym 'a outcome = "(error + 'a) \<times> CollectData"

fun transform_symbol_loop ::
  "(string \<Rightarrow> error + string) list \<Rightarrow> string \<Rightarrow> error + string" where
  "transform_symbol_loop [] name = Inr name"
| "transform_symbol_loop (sub # subs) name =
     (case sub name of
        Inl e \<Rightarrow> Inl e
      | Inr newname \<Rightarrow>
          transform_symbol_loop subs (if newname \<noteq> name then newname else name))"

definition transform_symbol :: "Env \<Rightarrow> string \<Rightarrow> error + string" where
  "transform_symbol env name = transform_symbol_loop (env_symbol_transforms env) name"

definition add_branch ::
  "CollectData \<Rightarrow> FileDataCollector \<Rightarrow> string \<Rightarrow> string
     \<Rightarrow> (FileDataCollector \<times> BranchData) outcome" where
  "add_branch cd fdc name branch_number =
     (case map_of (sdc_branches_data fdc) branch_number of
        Some branch_data \<Rightarrow> (Inr (fdc, branch_data), cd)
      | None \<Rightarrow>
          let (i, kg) = gen_id (cd_key_generator cd);
              cd1 = cd\<lparr> cd_key_generator := kg \<rparr>
          in (case before_last_dot branch_number of
                Inl e \<Rightarrow> (Inl e, cd1)
              | Inr parent \<Rightarrow>
                  let branch_data =
                        \<lparr> bd_id = i, bd_name = name, bd_branch_number = branch_number,
                          bd_parent = parent, bd_child = None \<rparr>
                  in (Inr (fdc\<lparr> sdc_branches_data :=
                                   AList.update branch_number branch_data
                                     (sdc_branches_data fdc) \<rparr>,
                           branch_data),
                      cd1\<lparr> cd_symbol_db := cd_symbol_db cd1 @ [BranchCreation name] \<rparr>)))"

definition add_unlabeled_branch ::
  "CollectData \<Rightarrow> FileDataCollector \<Rightarrow> string
     \<Rightarrow> (FileDataCollector \<times> BranchData) outcome" where
  "add_unlabeled_branch cd fdc branch_number =
     add_branch cd fdc (''unlabeled-'' @ branch_number) branch_number"

definition add_tag ::
  "CollectData \<Rightarrow> FileDataCollector \<Rightarrow> string \<Rightarrow> string \<Rightarrow> FileDataCollector outcome" where
  "add_tag cd fdc name revision =
     (let (i, kg) = gen_id (cd_key_generator cd);
          tag_data = \<lparr> td_id = i, td_name = name, td_rev = revision \<rparr>;
          old = (case map_of (sdc_tags_data fdc) revision of None \<Rightarrow> [] | Some l \<Rightarrow> l)
      in (Inr (fdc\<lparr> sdc_tags_data :=
                       AList.update revision (old @ [tag_data]) (sdc_tags_data fdc) \<rparr>),
          cd\<lparr> cd_key_generator := kg,
              cd_symbol_db := cd_symbol_db cd @ [TagCreation name] \<rparr>))"

definition define_symbol ::
  "Env \<Rightarrow> CollectData \<Rightarrow> FileDataCollector \<Rightarrow> string \<Rightarrow> string
     \<Rightarrow> FileDataCollector outcome" where
  "define_symbol env cd fdc name0 revision =
     (case transform_symbol env name0 of
        Inl e \<Rightarrow> (Inl e, cd)
      | Inr name \<Rightarrow>
          if name \<in> set (sdc_known_symbols fdc)
          then (Inr fdc,
                cd\<lparr> cd_fatal_errors := cd_fatal_errors cd
                       @ [MultipleDefinitions name (cf_filename (fdc_cvs_file fdc))] \<rparr>)
          else
            let fdc1 = fdc\<lparr> sdc_known_symbols := sdc_known_symbols fdc @ [name] \<rparr> in
            (case branch_tag_re_match revision of
               Some (g1, g2) \<Rightarrow>
                 (case add_branch cd fdc1 name (g1 @ g2) of
                    (Inl e, cd') \<Rightarrow> (Inl e, cd')
                  | (Inr (fdc2, branch_data), cd') \<Rightarrow> (Inr fdc2, cd'))
             | None \<Rightarrow> add_tag cd fdc1 name revision))"

definition rev_to_branch_data ::
  "FileDataCollector \<Rightarrow> string \<Rightarrow> error + BranchData option" where
  "rev_to_branch_data fdc revision =
     (if is_trunk_revision revision then Inr None
      else (case before_last_dot revision of
              Inl e \<Rightarrow> Inl e
            | Inr branch_number \<Rightarrow> Inr (map_of (sdc_branches_data fdc) branch_number)))"

definition register_commit ::
  "CollectData \<Rightarrow> FileDataCollector \<Rightarrow> RevisionData \<Rightarrow> unit outcome" where
  "register_commit cd fdc rev_data =
     (if is_branch_revision (rd_rev rev_data)
      then (case before_last_dot (rd_rev rev_data) of
              Inl e \<Rightarrow> (Inl e, cd)
            | Inr branch_number \<Rightarrow>
                (case map_of (sdc_branches_data fdc) branch_number of
                   None \<Rightarrow> (Inl KeyError, cd)
                 | Some branch_data \<Rightarrow>
                     (Inr (),
                      cd\<lparr> cd_symbol_db := cd_symbol_db cd
                             @ [BranchCommit (bd_name branch_data)] \<rparr>)))
      else (Inr (), cd))"

text \<open>The two loops of \<open>register_branch_blockers\<close>.\<close>

fun tag_blockers ::
  "FileDataCollector \<Rightarrow> (string \<times> TagData list) list \<Rightarrow> CollectData \<Rightarrow> unit outcome" where
  "tag_blockers fdc [] cd = (Inr (), cd)"
| "tag_blockers fdc ((revision, tag_data_list) # rest) cd =
     (if is_branch_revision revision
      then (case rev_to_branch_data fdc revision of
              Inl e \<Rightarrow> (Inl e, cd)
            | Inr branch_data_parent \<Rightarrow>
                if tag_data_list = [] then tag_blockers fdc rest cd
                else (case branch_data_parent of
                        None \<Rightarrow> (Inl AttributeError, cd)
                      | Some bp \<Rightarrow>
                          tag_blockers fdc rest
                            (cd\<lparr> cd_symbol_db := cd_symbol_db cd
                                   @ map (\<lambda>tag_data. BranchBlocker (bd_name bp) (td_name tag_data))
                                         tag_data_list \<rparr>)))
      else tag_blockers fdc rest cd)"

fun branch_blockers ::
  "FileDataCollector \<Rightarrow> BranchData list \<Rightarrow> CollectData \<Rightarrow> unit outcome" where
  "branch_blockers fdc [] cd = (Inr (), cd)"
| "branch_blockers fdc (branch_data_child # rest) cd =
     (if is_branch_revision (bd_parent branch_data_child)
      then (case rev_to_branch_data fdc (bd_parent branch_data_child) of
              Inl e \<Rightarrow> (Inl e, cd)
            | Inr None \<Rightarrow> (Inl AttributeError, cd)
            | Inr (Some bp) \<Rightarrow>
                branch_blockers fdc rest
                  (cd\<lparr> cd_symbol_db := cd_symbol_db cd
                         @ [BranchBlocker (bd_name bp) (bd_name branch_data_child)] \<rparr>))
      else branch_blockers fdc rest cd)"

definition register_branch_blockers :: "CollectData \<Rightarrow> FileDataCollector \<Rightarrow> unit outcome" where
  "register_branch_blockers cd fdc =
     (case tag_blockers fdc (sdc_tags_data fdc) cd of
        (Inl e, cd1) \<Rightarrow> (Inl e, cd1)
      | (Inr u, cd1) \<Rightarrow> branch_blockers fdc (map snd (sdc_branches_data fdc)) cd1)"

section \<open>The per-file collector\<close>


definition set_principal_branch :: "FileDataCollector \<Rightarrow> string option \<Rightarrow> FileDataCollector" where
  "set_principal_branch fdc branch = fdc\<lparr> fdc_default_branch := branch \<rparr>"

definition set_expansion :: "FileDataCollector \<Rightarrow> string \<Rightarrow> FileDataCollector" where
  "set_expansion fdc mode = fdc\<lparr> fdc_cvs_file := (fdc_cvs_file fdc)\<lparr> cf_mode := Some mode \<rparr> \<rparr>"

definition define_tag ::
  "Env \<Rightarrow> CollectData \<Rightarrow> FileDataCollector \<Rightarrow> string \<Rightarrow> string
     \<Rightarrow> FileDataCollector outcome" where
  "define_tag env cd fdc name revision = define_symbol env cd fdc name revision"

text \<open>
  The loop of \<open>define_revision\<close> over \<open>branches\<close>; \<open>acc\<close> is the list
  \<open>branches_data\<close> built so far.
\<close>

fun attach_branches ::
  "CollectData \<Rightarrow> FileDataCollector \<Rightarrow> string list \<Rightarrow> string list
     \<Rightarrow> (FileDataCollector \<times> string list) outcome" where
  "attach_branches cd fdc [] acc = (Inr (fdc, acc), cd)"
| "attach_branches cd fdc (branch # rest) acc =
     (case before_last_dot branch of
        Inl e \<Rightarrow> (Inl e, cd)
      | Inr branch_number \<Rightarrow>
          (case (case map_of (sdc_branches_data fdc) branch_number of
                   Some branch_data \<Rightarrow> (Inr (fdc, branch_data), cd)
                 | None \<Rightarrow> add_unlabeled_branch cd fdc branch_number) of
             (Inl e, cd1) \<Rightarrow> (Inl e, cd1)
           | (Inr (fdc1, branch_data), cd1) \<Rightarrow>
               if bd_child branch_data \<noteq> None then (Inl AssertionError, cd1)
               else attach_branches cd1
                      (fdc1\<lparr> sdc_branches_data :=
                               AList.update branch_number
                                 (branch_data\<lparr> bd_child := Some branch \<rparr>)
                                 (sdc_branches_data fdc1) \<rparr>)
                      rest (acc @ [branch_number])))"

definition define_revision ::
  "CollectData \<Rightarrow> FileDataCollector \<Rightarrow> string \<Rightarrow> int \<Rightarrow> string \<Rightarrow> string
     \<Rightarrow> string list \<Rightarrow> string option \<Rightarrow> FileDataCollector outcome" where
  "define_revision cd fdc revision timestamp author state branches nxt =
     (case attach_branches cd fdc branches [] of
        (Inl e, cd1) \<Rightarrow> (Inl e, cd1)
      | (Inr (fdc1, branches_data), cd1) \<Rightarrow>
          let (i, kg) = gen_id (cd_key_generator cd1);
              fdc2 = fdc1\<lparr> fdc_rev_data :=
                              AList.update revision
                                (new_RevisionData i revision timestamp author state
                                   branches_data)
                                (fdc_rev_data fdc1),
                            fdc_rev_order := fdc_rev_order fdc1 @ [revision] \<rparr>
          in (Inr (case nxt of
                     None \<Rightarrow> fdc2
                   | Some n \<Rightarrow>
                       if n = [] then fdc2
                       else if is_trunk_revision revision
                       then fdc2\<lparr> fdc_primary_dependencies :=
                                     fdc_primary_dependencies fdc2 @ [(n, revision)] \<rparr>
                       else fdc2\<lparr> fdc_primary_dependencies :=
                                     fdc_primary_dependencies fdc2 @ [(revision, n)] \<rparr>),
              cd1\<lparr> cd_key_generator := kg \<rparr>))"

text \<open>The two loops of \<open>_resolve_dependencies\<close>.\<close>

fun resolve_primary :: "(string \<times> string) list \<Rightarrow> rev_table \<Rightarrow> error + rev_table" where
  "resolve_primary [] tab = Inr tab"
| "resolve_primary ((parent, child) # rest) tab =
     (case map_of tab parent of
        None \<Rightarrow> Inl KeyError
      | Some parent_data \<Rightarrow>
          if rd_child parent_data \<noteq> None then Inl AssertionError
          else
            let tab1 = AList.update parent (parent_data\<lparr> rd_child := Some child \<rparr>) tab in
            (case map_of tab1 child of
               None \<Rightarrow> Inl KeyError
             | Some child_data \<Rightarrow>
                 if rd_parent child_data \<noteq> None then Inl AssertionError
                 else resolve_primary rest
                        (AList.update child (child_data\<lparr> rd_parent := Some parent \<rparr>) tab1)))"

fun resolve_branches :: "BranchData list \<Rightarrow> rev_table \<Rightarrow> error + rev_table" where
  "resolve_branches [] tab = Inr tab"
| "resolve_branches (branch_data # rest) tab =
     (case map_of tab (bd_parent branch_data) of
        None \<Rightarrow> Inl KeyError
      | Some parent_data \<Rightarrow>
          let tab1 = AList.update (bd_parent branch_data)
                       (parent_data\<lparr> rd_branch_numbers :=
                          rd_branch_numbers parent_data @ [bd_branch_number branch_data] \<rparr>)
                       tab
          in (case bd_child branch_data of
                None \<Rightarrow> resolve_branches rest tab1
              | Some c \<Rightarrow>
                  (case map_of tab1 c of
                     None \<Rightarrow> Inl KeyError
                   | Some child_data \<Rightarrow>
                       if rd_parent child_data \<noteq> None then Inl AssertionError
                       else resolve_branches rest
                              (AList.update c
                                 (child_data\<lparr> rd_parent := Some (bd_parent branch_data) \<rparr>)
                                 tab1))))"

definition resolve_dependencies :: "FileDataCollector \<Rightarrow> error + FileDataCollector" where
  "resolve_dependencies fdc =
     (case resolve_primary (fdc_primary_dependencies fdc) (fdc_rev_data fdc) of
        Inl e \<Rightarrow> Inl e
      | Inr tab1 \<Rightarrow>
          (case resolve_branches (map snd (sdc_branches_data fdc)) tab1 of
             Inl e \<Rightarrow> Inl e
           | Inr tab2 \<Rightarrow> Inr (fdc\<lparr> fdc_rev_data := tab2 \<rparr>)))"

text \<open>
  \<open>_update_default_branch\<close>.  \<open>if self.default_branch\<close> holds for a non-empty
  string, and \<open>not self.first_non_vendor_revision_date\<close> for \<open>None\<close> and for 0.
\<close>

definition update_default_branch :: "FileDataCollector \<Rightarrow> RevisionData \<Rightarrow> FileDataCollector" where
  "update_default_branch fdc rev_data =
     (if fdc_default_branch fdc \<noteq> None \<and> fdc_default_branch fdc \<noteq> Some []
      then
        let default_branch_root = the (fdc_default_branch fdc) @ ''.'' in
        if startswith (rd_rev rev_data) default_branch_root
           \<and> count_dots default_branch_root = count_dots (rd_rev rev_data)
        then fdc\<lparr> fdc_cvs_file :=
                    (fdc_cvs_file fdc)\<lparr> cf_default_branch := Some (rd_rev rev_data) \<rparr> \<rparr>
        else fdc
      else
        if rd_rev rev_data = ''1.2''
        then fdc\<lparr> fdc_first_non_vendor_revision_date := Some (rd_timestamp rev_data) \<rparr>
        else
          if vendor_revision_match (rd_rev rev_data)
             \<and> (fdc_first_non_vendor_revision_date fdc = None
                \<or> fdc_first_non_vendor_revision_date fdc = Some 0
                \<or> rd_timestamp rev_data < the (fdc_first_non_vendor_revision_date fdc))
          then fdc\<lparr> fdc_cvs_file :=
                      (fdc_cvs_file fdc)\<lparr> cf_default_branch := Some (rd_rev rev_data) \<rparr> \<rparr>
          else fdc)"

text \<open>The first loop of \<open>tree_completed\<close>, over \<open>_rev_order\<close>.\<close>

fun register_revisions ::
  "CollectData \<Rightarrow> FileDataCollector \<Rightarrow> string list \<Rightarrow> FileDataCollector outcome" where
  "register_revisions cd fdc [] = (Inr fdc, cd)"
| "register_revisions cd fdc (r # rest) =
     (case map_of (fdc_rev_data fdc) r of
        None \<Rightarrow> (Inl KeyError, cd)
      | Some rev_data \<Rightarrow>
          (case register_commit cd fdc rev_data of
             (Inl e, cd1) \<Rightarrow> (Inl e, cd1)
           | (Inr u, cd1) \<Rightarrow>
               register_revisions cd1 (update_default_branch fdc rev_data) rest))"

text \<open>\<open>tree_completed\<close>; \<open>None\<close> when the resync loop does not return.\<close>

definition tree_completed ::
  "Env \<Rightarrow> CollectData \<Rightarrow> FileDataCollector \<Rightarrow> FileDataCollector outcome option" where
  "tree_completed env cd fdc =
     (case register_revisions cd fdc (fdc_rev_order fdc) of
        (Inl e, cd1) \<Rightarrow> Some (Inl e, cd1)
      | (Inr fdc1, cd1) \<Rightarrow>
          (case resolve_dependencies fdc1 of
             Inl e \<Rightarrow> Some (Inl e, cd1)
           | Inr fdc2 \<Rightarrow>
               Option.bind (resync_loop (env_ctime env) (fdc_rev_data fdc2))
                 (\<lambda>r. case r of
                         Inl e \<Rightarrow> Some (Inl e, cd1)
                       | Inr tab \<Rightarrow> Some (Inr (fdc2\<lparr> fdc_rev_data := tab \<rparr>), cd1))))"

section \<open>Classifying and emitting revisions\<close>

text \<open>
  The \<open>while 1\<close> loop of \<open>_determine_operation\<close>, at the revision number
  \<open>cur_num\<close> with the operation found so far.  It follows parent links to the
  root, so on cyclic links it does not return.
\<close>

partial_function (option) issue_89_walk ::
  "rev_table \<Rightarrow> string \<Rightarrow> operation \<Rightarrow> (error + operation) option" where
  "issue_89_walk tab cur_num opn =
     (case map_of tab cur_num of
        None \<Rightarrow> Some (Inl KeyError)
      | Some cur_data \<Rightarrow>
          (case rd_parent cur_data of
             None \<Rightarrow> Some (Inr opn)
           | Some prev_num \<Rightarrow>
               if cur_num = [] \<or> prev_num = [] then Some (Inr opn)
               else if \<not> is_same_line_of_development (Some cur_num) (Some prev_num)
                       \<and> rd_state cur_data = ''dead''
               then (case map_of tab prev_num of
                       None \<Rightarrow> Some (Inl KeyError)
                     | Some prev_data \<Rightarrow>
                         issue_89_walk tab prev_num
                           (if rd_state prev_data \<noteq> ''dead'' then OP_CHANGE else opn))
               else issue_89_walk tab prev_num opn))"

declare issue_89_walk.simps [code]

definition determine_operation ::
  "rev_table \<Rightarrow> RevisionData \<Rightarrow> (error + operation) option" where
  "determine_operation tab rev_data =
     (let prev_rev_data = (case rd_parent rev_data of None \<Rightarrow> None | Some p \<Rightarrow> map_of tab p);
          opn = (if rd_state rev_data = ''dead'' then OP_DELETE
                 else if prev_rev_data = None \<or> rd_state (the prev_rev_data) = ''dead''
                 then OP_ADD
                 else OP_CHANGE)
      in if is_branch_revision (rd_rev rev_data) \<and> rd_state rev_data \<noteq> ''dead''
         then issue_89_walk tab (rd_rev rev_data) opn
         else Some (Inr opn))"

text \<open>\<open>_is_first_on_branch\<close>; \<open>not rev_data.parent\<close> holds for \<open>None\<close> and for the empty string.\<close>

definition is_first_on_branch :: "RevisionData \<Rightarrow> bool" where
  "is_first_on_branch rev_data =
     (case rd_parent rev_data of
        None \<Rightarrow> True
      | Some p \<Rightarrow> if p = [] then True else count_dots (rd_rev rev_data) \<noteq> count_dots p)"

definition get_rev_id :: "rev_table \<Rightarrow> string option \<Rightarrow> error + nat option" where
  "get_rev_id tab revision =
     (case revision of
        None \<Rightarrow> Inr None
      | Some r \<Rightarrow> (case map_of tab r of
                     None \<Rightarrow> Inl KeyError
                   | Some d \<Rightarrow> Inr (Some (rd_cvs_rev_id d))))"

definition add_cvs_revision :: "CollectData \<Rightarrow> CVSRevision \<Rightarrow> CollectData" where
  "add_cvs_revision cd c_rev =
     cd\<lparr> cd_cvs_revs_db := cd_cvs_revs_db cd @ [c_rev],
         cd_all_revs := cd_all_revs cd @ [cr_id c_rev],
         cd_stats_keeper := cd_stats_keeper cd @ [cr_id c_rev] \<rparr>"

definition add_cvs_file :: "CollectData \<Rightarrow> CVSFile \<Rightarrow> CollectData" where
  "add_cvs_file cd cvs_file = cd\<lparr> cd_cvs_file_db := cd_cvs_file_db cd @ [cvs_file] \<rparr>"

text \<open>The list comprehension \<open>branch_names\<close> of \<open>set_revision_info\<close>.\<close>

fun branch_names_of :: "(string \<times> BranchData) list \<Rightarrow> string list \<Rightarrow> error + string list" where
  "branch_names_of bs [] = Inr []"
| "branch_names_of bs (branch_number # rest) =
     (case map_of bs branch_number of
        None \<Rightarrow> Inl KeyError
      | Some branch_data \<Rightarrow>
          (case branch_names_of bs rest of
             Inl e \<Rightarrow> Inl e
           | Inr names \<Rightarrow> Inr (bd_name branch_data # names)))"

definition initial_revision_log :: string where
  "initial_revision_log = ''Initial revision'' @ [CHR 0x0A]"

text \<open>
  The line of development that \<open>set_revision_info\<close> gives a revision:
  \<open>branch_data.name\<close> raises when the revision's branch is unknown.
\<close>

definition revision_lod :: "FileDataCollector \<Rightarrow> string \<Rightarrow> error + line_of_development" where
  "revision_lod fdc revision =
     (if is_branch_revision revision
      then (case rev_to_branch_data fdc revision of
              Inl e \<Rightarrow> Inl e
            | Inr None \<Rightarrow> Inl AttributeError
            | Inr (Some branch_data) \<Rightarrow> Inr (Branch (bd_name branch_data)))
      else Inr Trunk)"

text \<open>
  The call of the \<open>CVSRevision\<close> constructor in \<open>set_revision_info\<close>.  Its
  arguments are evaluated in order, so a missing parent or child raises before
  the operation is determined.
\<close>

definition new_CVSRevision ::
  "FileDataCollector \<Rightarrow> RevisionData \<Rightarrow> string \<Rightarrow> string \<Rightarrow> string
     \<Rightarrow> line_of_development \<Rightarrow> string list \<Rightarrow> string list
     \<Rightarrow> (error + CVSRevision) option" where
  "new_CVSRevision fdc rev_data revision digest text lod tag_names branch_names =
     (case get_rev_id (fdc_rev_data fdc) (Some revision) of
        Inl e \<Rightarrow> Some (Inl e)
      | Inr None \<Rightarrow> Some (Inl KeyError)
      | Inr (Some rev_id) \<Rightarrow>
     (case get_rev_id (fdc_rev_data fdc) (rd_parent rev_data) of
        Inl e \<Rightarrow> Some (Inl e)
      | Inr prev_id \<Rightarrow>
     (case get_rev_id (fdc_rev_data fdc) (rd_child rev_data) of
        Inl e \<Rightarrow> Some (Inl e)
      | Inr next_id \<Rightarrow>
     Option.bind (determine_operation (fdc_rev_data fdc) rev_data)
       (\<lambda>r. case r of
               Inl e \<Rightarrow> Some (Inl e)
             | Inr opn \<Rightarrow>
                 Some (Inr \<lparr> cr_id = rev_id, cr_cvs_file = cf_id (fdc_cvs_file fdc),
                             cr_timestamp = rd_timestamp rev_data, cr_digest = digest,
                             cr_prev_id = prev_id, cr_next_id = next_id, cr_op = opn,
                             cr_rev = revision, cr_deltatext_exists = (text \<noteq> []),
                             cr_lod = lod,
                             cr_first_on_branch = is_first_on_branch rev_data,
                             cr_tags = tag_names, cr_branches = branch_names \<rparr>)))))"

text \<open>\<open>set_revision_info\<close>.\<close>

definition set_revision_info ::
  "Env \<Rightarrow> CollectData \<Rightarrow> FileDataCollector \<Rightarrow> string \<Rightarrow> string \<Rightarrow> string
     \<Rightarrow> FileDataCollector outcome option" where
  "set_revision_info env cd fdc revision log text =
     (case map_of (fdc_rev_data fdc) revision of
        None \<Rightarrow> Some (Inl KeyError, cd)
      | Some rev_data \<Rightarrow>
          let digest = env_sha_hexdigest env (log @ [CHR 0x00] @ rd_author rev_data);
              cd1 = (if timestamp_was_adjusted rev_data
                     then cd\<lparr> cd_resync := cd_resync cd
                                @ [(rd_original_timestamp rev_data, digest,
                                    rd_timestamp rev_data)] \<rparr>
                     else cd);
              fdc1 = (if revision = ''1.1'' \<and> log \<noteq> initial_revision_log
                      then fdc\<lparr> fdc_cvs_file :=
                                  (fdc_cvs_file fdc)\<lparr> cf_default_branch := None \<rparr> \<rparr>
                      else fdc)
          in
          (case revision_lod fdc1 revision of
             Inl e \<Rightarrow> Some (Inl e, cd1)
           | Inr lod \<Rightarrow>
          (case branch_names_of (sdc_branches_data fdc1) (rd_branch_numbers rev_data) of
             Inl e \<Rightarrow> Some (Inl e, cd1)
           | Inr branch_names \<Rightarrow>
          let tag_names =
                map td_name (case map_of (sdc_tags_data fdc1) (rd_rev rev_data) of
                               None \<Rightarrow> [] | Some l \<Rightarrow> l)
          in
          Option.bind
            (new_CVSRevision fdc1 rev_data revision digest text lod tag_names branch_names)
            (\<lambda>r. case r of
                    Inl e \<Rightarrow> Some (Inl e, cd1)
                  | Inr c_rev \<Rightarrow>
                      let fdc2 = fdc1\<lparr> fdc_rev_data :=
                                   AList.update revision (rev_data\<lparr> rd_c_rev := Some c_rev \<rparr>)
                                     (fdc_rev_data fdc1) \<rparr>;
                          cd2 = add_cvs_revision cd1 c_rev;
                          cd3 = (if map_of (cd_metadata_db cd2) digest = None
                                 then cd2\<lparr> cd_metadata_db :=
                                             AList.update digest (rd_author rev_data, log)
                                               (cd_metadata_db cd2) \<rparr>
                                 else cd2)
                      in Some (Inr fdc2, cd3)))))"

definition parse_completed :: "CollectData \<Rightarrow> FileDataCollector \<Rightarrow> FileDataCollector outcome" where
  "parse_completed cd fdc =
     (case register_branch_blockers (add_cvs_file cd (fdc_cvs_file fdc)) fdc of
        (Inl e, cd1) \<Rightarrow> (Inl e, cd1)
      | (Inr u, cd1) \<Rightarrow> (Inr fdc, cd1\<lparr> cd_num_files := cd_num_files cd1 + 1 \<rparr>))"

section \<open>Processing a file\<close>

text \<open>One callback of the parser on the collector.\<close>

definition sink_call ::
  "Env \<Rightarrow> CollectData \<Rightarrow> FileDataCollector \<Rightarrow> sink_event
     \<Rightarrow> FileDataCollector outcome option" where
  "sink_call env cd fdc ev =
     (case ev of
        SetPrincipalBranch branch \<Rightarrow> Some (Inr (set_principal_branch fdc branch), cd)
      | SetExpansion mode \<Rightarrow> Some (Inr (set_expansion fdc mode), cd)
      | DefineTag name revision \<Rightarrow> Some (define_tag env cd fdc name revision)
      | AdminCompleted \<Rightarrow> Some (Inr fdc, cd)
      | DefineRevision revision timestamp author state branches nxt \<Rightarrow>
          Some (define_revision cd fdc revision timestamp author state branches nxt)
      | TreeCompleted \<Rightarrow> tree_completed env cd fdc
      | SetRevisionInfo revision log text \<Rightarrow> set_revision_info env cd fdc revision log text
      | ParseCompleted \<Rightarrow> Some (parse_completed cd fdc))"

text \<open>
  \<open>cvs2svn_rcsparse.parse\<close> as seen from the collector: the callbacks in
  order, stopping at the first that raises, then the parser's own exception.
\<close>

fun run_parse ::
  "Env \<Rightarrow> CollectData \<Rightarrow> FileDataCollector \<Rightarrow> sink_event list \<Rightarrow> error option
     \<Rightarrow> FileDataCollector outcome option" where
  "run_parse env cd fdc [] None = Some (Inr fdc, cd)"
| "run_parse env cd fdc [] (Some e) = Some (Inl e, cd)"
| "run_parse env cd fdc (ev # evs) raised =
     Option.bind (sink_call env cd fdc ev)
       (\<lambda>r. case r of
               (Inl e, cd1) \<Rightarrow> Some (Inl e, cd1)
             | (Inr fdc1, cd1) \<Rightarrow> run_parse env cd1 fdc1 evs raised)"


text \<open>\<open>CollectData.__init__\<close>; the revision key generator starts at \<open>first_id\<close>.\<close>

definition new_CollectData :: "nat \<Rightarrow> CollectData" where
  "new_CollectData first_id =
     \<lparr> cd_cvs_revs_db = [], cd_all_revs = [], cd_resync = [], cd_metadata_db = [],
       cd_fatal_errors = [], cd_num_files = 0, cd_symbol_db = [], cd_stats_keeper = [],
       cd_file_key_generator = 1, cd_key_generator = first_id, cd_cvs_file_db = [] \<rparr>"

section \<open>Commit objects\<close>

text \<open>The class of a commit object: \<open>SVNCommit\<close> itself or one of its five subclasses.\<close>

datatype commit_class =
    PlainSVNCommit
  | SVNInitialProjectCommit
  | SVNPrimaryCommit
  | SVNPreCommit
  | SVNPostCommit
  | SVNSymbolCloseCommit

text \<open>
  The attributes of an \<open>SVNCommit\<close>, and its class.  \<open>is_tag\<close> is \<open>None\<close> or
  the integer that \<open>__setstate__\<close> stores.
\<close>

record SVNCommit =
  sc_class :: commit_class
  sc_description :: string
  sc_author :: "string option"
  sc_log_msg :: string
  sc_date :: int
  sc_cvs_revs :: "CVSRevision list"
  sc_revnum :: int
  sc_symbolic_name :: "string option"
  sc_motivating_revnum :: "int option"
  sc_is_tag :: "int option"

text \<open>
  What the commit classes read from outside the module: \<open>Ctx().username\<close>,
  \<open>Ctx().trunk_only\<close>, \<open>clean_symbolic_name\<close>, \<open>repr\<close> of a string (the
  \<open>%r\<close> format), whether \<open>Ctx()._symbol_db.get_symbol(name)\<close> is a
  \<open>TagSymbol\<close>, and the dictionaries \<open>Ctx()._cvs_items_db\<close> and
  \<open>Ctx()._metadata_db\<close>.
\<close>

record Ctx =
  ctx_username :: "string option"
  ctx_trunk_only :: bool
  ctx_clean_symbolic_name :: "string \<Rightarrow> string"
  ctx_repr :: "string \<Rightarrow> string"
  ctx_is_tag_symbol :: "string \<Rightarrow> bool"
  ctx_cvs_items_db :: "nat \<Rightarrow> CVSRevision option"
  ctx_metadata_db :: "string \<Rightarrow> (string \<times> string) option"

text \<open>
  \<open>SVNCommit.__init__\<close> on a new object of class \<open>cls\<close>.  The class attribute
  \<open>SVNCommit.revnum\<close> is passed in as \<open>counter\<close> and returned with the
  object.  \<open>if revnum\<close> fails for \<open>None\<close> and for 0.
\<close>

definition SVNCommit_init ::
  "Ctx \<Rightarrow> int \<Rightarrow> commit_class \<Rightarrow> string \<Rightarrow> int option \<Rightarrow> CVSRevision list option
     \<Rightarrow> SVNCommit \<times> int" where
  "SVNCommit_init ctx counter cls description revnum cvs_revs =
     (let c = \<lparr> sc_class = cls, sc_description = description,
                sc_author = ctx_username ctx,
                sc_log_msg = ''This log message means an SVNCommit was used too soon.'',
                sc_date = 0,
                sc_cvs_revs = (case cvs_revs of None \<Rightarrow> [] | Some l \<Rightarrow> l),
                sc_revnum = 0,
                sc_symbolic_name = None, sc_motivating_revnum = None, sc_is_tag = None \<rparr>
      in if revnum \<noteq> None \<and> revnum \<noteq> Some 0
         then (c\<lparr> sc_revnum := the revnum \<rparr>, counter)
         else (c\<lparr> sc_revnum := counter \<rparr>, counter + 1))"

definition initial_revnum_counter :: int where
  "initial_revnum_counter = 2"

definition set_symbolic_name :: "SVNCommit \<Rightarrow> string option \<Rightarrow> SVNCommit" where
  "set_symbolic_name c symbolic_name = c\<lparr> sc_symbolic_name := symbolic_name \<rparr>"

definition set_motivating_revnum :: "SVNCommit \<Rightarrow> int option \<Rightarrow> SVNCommit" where
  "set_motivating_revnum c revnum = c\<lparr> sc_motivating_revnum := revnum \<rparr>"

definition set_author :: "SVNCommit \<Rightarrow> string option \<Rightarrow> SVNCommit" where
  "set_author c author = c\<lparr> sc_author := author \<rparr>"

definition set_log_msg :: "SVNCommit \<Rightarrow> string \<Rightarrow> SVNCommit" where
  "set_log_msg c msg = c\<lparr> sc_log_msg := msg \<rparr>"

definition add_revision :: "SVNCommit \<Rightarrow> CVSRevision \<Rightarrow> SVNCommit" where
  "add_revision c cvs_rev = c\<lparr> sc_cvs_revs := sc_cvs_revs c @ [cvs_rev] \<rparr>"

text \<open>The constructors of the five subclasses.\<close>

definition new_SVNInitialProjectCommit :: "Ctx \<Rightarrow> int \<Rightarrow> int \<Rightarrow> SVNCommit \<times> int" where
  "new_SVNInitialProjectCommit ctx counter date =
     (let (c, counter') =
            SVNCommit_init ctx counter SVNInitialProjectCommit ''Initialization'' (Some 1) None
      in (set_log_msg (c\<lparr> sc_date := date \<rparr>) ''New repository initialized by cvs2svn.'',
          counter'))"

definition new_SVNPrimaryCommit :: "Ctx \<Rightarrow> int \<Rightarrow> CVSRevision list \<Rightarrow> SVNCommit \<times> int" where
  "new_SVNPrimaryCommit ctx counter c_revs =
     (let (c, counter') = SVNCommit_init ctx counter SVNPrimaryCommit ''commit'' None None
      in (foldl add_revision c c_revs, counter'))"

definition new_SVNPreCommit :: "Ctx \<Rightarrow> int \<Rightarrow> string \<Rightarrow> SVNCommit \<times> int" where
  "new_SVNPreCommit ctx counter name =
     (let (c, counter') =
            SVNCommit_init ctx counter SVNPreCommit
              (''pre-commit symbolic name '' @ ctx_repr ctx name) None None
      in (set_symbolic_name c (Some name), counter'))"

definition new_SVNPostCommit ::
  "Ctx \<Rightarrow> int \<Rightarrow> int \<Rightarrow> CVSRevision list \<Rightarrow> SVNCommit \<times> int" where
  "new_SVNPostCommit ctx counter motivating_revnum c_revs =
     (let (c, counter') =
            SVNCommit_init ctx counter SVNPostCommit ''post-commit default branch(es)'' None None
      in (foldl add_revision (set_motivating_revnum c (Some motivating_revnum)) c_revs,
          counter'))"

definition new_SVNSymbolCloseCommit ::
  "Ctx \<Rightarrow> int \<Rightarrow> string \<Rightarrow> int \<Rightarrow> SVNCommit \<times> int" where
  "new_SVNSymbolCloseCommit ctx counter name date =
     (let (c, counter') =
            SVNCommit_init ctx counter SVNSymbolCloseCommit
              (''closing tag/branch '' @ ctx_repr ctx name) None None
      in ((set_symbolic_name c (Some name))\<lparr> sc_date := date \<rparr>, counter'))"

text \<open>Decimal text of an integer, as the \<open>%d\<close> format gives it.\<close>

fun nat_digits :: "nat \<Rightarrow> string" where
  "nat_digits n =
     (if n < 10 then [char_of (48 + n)] else nat_digits (n div 10) @ [char_of (48 + n mod 10)])"

definition format_d :: "int \<Rightarrow> string" where
  "format_d i = (if i < 0 then ''-'' @ nat_digits (nat (- i)) else nat_digits (nat i))"

text \<open>The log messages.\<close>

definition log_msg_for_symbolic_name_commit :: "Ctx \<Rightarrow> SVNCommit \<Rightarrow> error + string" where
  "log_msg_for_symbolic_name_commit ctx c =
     (case sc_symbolic_name c of
        None \<Rightarrow> Inl OtherException
      | Some symbolic_name \<Rightarrow>
          let type0 = ''branch'';
              type = (if sc_is_tag c \<noteq> None \<and> sc_is_tag c \<noteq> Some 0 then ''tag'' else type0);
              space_or_newline0 = '' '';
              cleaned_symbolic_name = ctx_clean_symbolic_name ctx symbolic_name;
              space_or_newline =
                (if length cleaned_symbolic_name \<ge> 13 then [CHR 0x0A] else space_or_newline0)
          in Inr (''This commit was manufactured by cvs2svn to create ''
                  @ type @ space_or_newline @ [CHR 0x27] @ cleaned_symbolic_name
                  @ [CHR 0x27] @ ''.''))"

definition log_msg_for_default_branch_commit :: "SVNCommit \<Rightarrow> error + string" where
  "log_msg_for_default_branch_commit c =
     (case sc_motivating_revnum c of
        None \<Rightarrow> Inl OtherException
      | Some m \<Rightarrow>
          Inr (''This commit was generated by cvs2svn to compensate for ''
               @ ''changes in r'' @ format_d m @ '','' @ [CHR 0x0A]
               @ ''which included commits to RCS files with non-trunk default ''
               @ ''branches.'' @ [CHR 0x0A]))"

definition get_log_msg :: "Ctx \<Rightarrow> SVNCommit \<Rightarrow> error + string" where
  "get_log_msg ctx c =
     (if sc_symbolic_name c \<noteq> None then log_msg_for_symbolic_name_commit ctx c
      else if sc_motivating_revnum c \<noteq> None then log_msg_for_default_branch_commit c
      else Inr (sc_log_msg c))"

text \<open>
  \<open>__getstate__\<close> and \<open>__setstate__\<close>.  The pickled keys are the revisions'
  ids (written with \<open>%x\<close>, read back with \<open>int(key, 16)\<close>).
\<close>

type_synonym commit_state = "int \<times> nat list \<times> int option \<times> string option \<times> int"

definition getstate :: "SVNCommit \<Rightarrow> commit_state" where
  "getstate c =
     (sc_revnum c, map cr_id (sc_cvs_revs c), sc_motivating_revnum c, sc_symbolic_name c,
      sc_date c)"

text \<open>The loop of \<open>__setstate__\<close> over the keys; \<open>metadata_id\<close> is \<open>None\<close> until the first revision.\<close>

fun restore_revisions ::
  "Ctx \<Rightarrow> nat list \<Rightarrow> string option \<Rightarrow> SVNCommit \<Rightarrow> error + SVNCommit" where
  "restore_revisions ctx [] metadata_id c = Inr c"
| "restore_revisions ctx (c_rev_id # keys) metadata_id c =
     (case ctx_cvs_items_db ctx c_rev_id of
        None \<Rightarrow> Inl KeyError
      | Some c_rev \<Rightarrow>
          let c1 = add_revision c c_rev in
          (case metadata_id of
             None \<Rightarrow>
               (case ctx_metadata_db ctx (cr_digest c_rev) of
                  None \<Rightarrow> Inl KeyError
                | Some (author, log_msg) \<Rightarrow>
                    restore_revisions ctx keys (Some (cr_digest c_rev))
                      (set_log_msg (set_author c1 (Some author)) log_msg))
           | Some m \<Rightarrow> restore_revisions ctx keys metadata_id c1))"

definition setstate ::
  "Ctx \<Rightarrow> int \<Rightarrow> commit_class \<Rightarrow> commit_state \<Rightarrow> (error + SVNCommit) \<times> int" where
  "setstate ctx counter cls st =
     (case st of (revnum, c_rev_keys, motivating_revnum, name, date) \<Rightarrow>
        let (c0, counter') =
              SVNCommit_init ctx counter cls ''Retrieved from disk'' (Some revnum) None
        in (case restore_revisions ctx c_rev_keys None c0 of
              Inl e \<Rightarrow> (Inl e, counter')
            | Inr c1 \<Rightarrow>
                let c2 = c1\<lparr> sc_date := date \<rparr> in
                if ctx_trunk_only ctx then (Inr c2, counter')
                else
                  (case (if name \<noteq> None \<and> name \<noteq> Some []
                         then (if sc_cvs_revs c2 \<noteq> []
                               then Inl SVNCommitInternalInconsistencyError
                               else
                                 let c3 = set_symbolic_name c2 name in
                                 Inr (if ctx_is_tag_symbol ctx (the name)
                                      then c3\<lparr> sc_is_tag := Some 1 \<rparr> else c3))
                         else Inr c2) of
                     Inl e \<Rightarrow> (Inl e, counter')
                   | Inr c4 \<Rightarrow>
                       (Inr (if motivating_revnum \<noteq> None
                             then set_motivating_revnum c4 motivating_revnum else c4),
                        counter'))))"

section \<open>Vocabulary of the statements\<close>

text \<open>
  \<open>parent_chain tab r c\<close>: the walk started at \<open>r\<close> reaches \<open>c\<close>, that is, \<open>c\<close>
  is \<open>r\<close> or comes after it along parent links between non-empty revision
  numbers.  \<open>crossing tab c\<close>: the step from \<open>c\<close> to its parent leaves the line
  of development, \<open>c\<close> is dead and its parent is not.
\<close>

inductive parent_chain :: "rev_table \<Rightarrow> string \<Rightarrow> string \<Rightarrow> bool" where
  here: "parent_chain tab r r"
| step: "map_of tab r = Some d \<Longrightarrow> rd_parent d = Some p \<Longrightarrow> r \<noteq> [] \<Longrightarrow> p \<noteq> []
           \<Longrightarrow> parent_chain tab p c \<Longrightarrow> parent_chain tab r c"

definition crossing :: "rev_table \<Rightarrow> string \<Rightarrow> bool" where
  "crossing tab c =
     (case map_of tab c of
        None \<Rightarrow> False
      | Some cd \<Rightarrow>
          (case rd_parent cd of
             None \<Rightarrow> False
           | Some p \<Rightarrow>
               p \<noteq> [] \<and> \<not> is_same_line_of_development (Some c) (Some p)
               \<and> rd_state cd = ''dead''
               \<and> (case map_of tab p of None \<Rightarrow> False | Some pd \<Rightarrow> rd_state pd \<noteq> ''dead'')))"

text \<open>
  Commit objects in creation order: a request names one of the five subclass
  constructors with its arguments, and \<open>construct_all\<close> runs the constructors
  one after the other on the shared counter \<open>SVNCommit.revnum\<close>.
\<close>

datatype commit_request =
    NewInitialProjectCommit int
  | NewPrimaryCommit "CVSRevision list"
  | NewPreCommit string
  | NewPostCommit int "CVSRevision list"
  | NewSymbolCloseCommit string int

fun construct :: "Ctx \<Rightarrow> int \<Rightarrow> commit_request \<Rightarrow> SVNCommit \<times> int" where
  "construct ctx counter (NewInitialProjectCommit date) =
     new_SVNInitialProjectCommit ctx counter date"
| "construct ctx counter (NewPrimaryCommit c_revs) = new_SVNPrimaryCommit ctx counter c_revs"
| "construct ctx counter (NewPreCommit name) = new_SVNPreCommit ctx counter name"
| "construct ctx counter (NewPostCommit motivating_revnum c_revs) =
     new_SVNPostCommit ctx counter motivating_revnum c_revs"
| "construct ctx counter (NewSymbolCloseCommit name date) =
     new_SVNSymbolCloseCommit ctx counter name date"

fun construct_all :: "Ctx \<Rightarrow> int \<Rightarrow> commit_request list \<Rightarrow> SVNCommit list \<times> int" where
  "construct_all ctx counter [] = ([], counter)"
| "construct_all ctx counter (r # rs) =
     (let (c, counter') = construct ctx counter r;
          (cs, counter'') = construct_all ctx counter' rs
      in (c # cs, counter''))"

definition numbered_commits :: "SVNCommit list \<Rightarrow> SVNCommit list" where
  "numbered_commits cs = filter (\<lambda>c. sc_class c \<noteq> SVNInitialProjectCommit) cs"

text \<open>
  \<open>parents_earlier tab\<close>: every revision of the table that has a parent has it
  in the table, with a timestamp strictly before its own.
\<close>

definition parent_earlier :: "rev_table \<Rightarrow> string \<Rightarrow> bool" where
  "parent_earlier tab k =
     (case map_of tab k of
        None \<Rightarrow> True
      | Some d \<Rightarrow>
          (case rd_parent d of
             None \<Rightarrow> True
           | Some p \<Rightarrow>
               (case map_of tab p of
                  None \<Rightarrow> False
                | Some pd \<Rightarrow> rd_timestamp pd < rd_timestamp d)))"

definition parents_earlier :: "rev_table \<Rightarrow> bool" where
  "parents_earlier tab = list_all (parent_earlier tab) (map fst tab)"




text \<open>
  Notions used to show that the resync loop returns.  \<open>ts_of\<close> and \<open>par_of\<close>
  read a timestamp and a parent off the table.  A rank \<open>rk\<close> puts every parent
  strictly below its children.  With ranks, no timestamp can sink below
  \<open>lo\<close> plus the rank of its revision, and \<open>slack\<close> adds up how far the
  timestamps are above \<open>lo\<close>.
\<close>

definition ts_of :: "rev_table \<Rightarrow> string \<Rightarrow> int" where
  "ts_of tab k = (case map_of tab k of None \<Rightarrow> 0 | Some d \<Rightarrow> rd_timestamp d)"

definition par_of :: "rev_table \<Rightarrow> string \<Rightarrow> string option" where
  "par_of tab k = (case map_of tab k of None \<Rightarrow> None | Some d \<Rightarrow> rd_parent d)"

definition ranked :: "(string \<Rightarrow> nat) \<Rightarrow> rev_table \<Rightarrow> bool" where
  "ranked rk tab = (\<forall>k p. par_of tab k = Some p \<longrightarrow> rk p < rk k)"



text \<open>\<open>parents_known tab\<close>: every parent named in the table is a revision of the table.\<close>

definition parents_known :: "rev_table \<Rightarrow> bool" where
  "parents_known tab =
     list_all (\<lambda>k. case par_of tab k of None \<Rightarrow> True | Some p \<Rightarrow> map_of tab p \<noteq> None)
              (map fst tab)"





text \<open>
  What a commit object holds.  \<open>built_as r c\<close>: the commit \<open>c\<close> has the class,
  the revisions and the symbolic name that the request \<open>r\<close> names.
  \<open>carries_one c\<close>: \<open>c\<close> carries a non-empty list of revisions or a symbolic
  name, and not both.  \<open>empty_request r\<close>: the request is for the initial
  commit, or hands an empty list of revisions to a constructor that takes
  revisions.
\<close>

fun built_as :: "commit_request \<Rightarrow> SVNCommit \<Rightarrow> bool" where
  "built_as (NewInitialProjectCommit date) c =
     (sc_class c = SVNInitialProjectCommit \<and> sc_cvs_revs c = [] \<and> sc_symbolic_name c = None)"
| "built_as (NewPrimaryCommit c_revs) c =
     (sc_class c = SVNPrimaryCommit \<and> sc_cvs_revs c = c_revs \<and> sc_symbolic_name c = None)"
| "built_as (NewPreCommit name) c =
     (sc_class c = SVNPreCommit \<and> sc_cvs_revs c = [] \<and> sc_symbolic_name c = Some name)"
| "built_as (NewPostCommit motivating_revnum c_revs) c =
     (sc_class c = SVNPostCommit \<and> sc_cvs_revs c = c_revs \<and> sc_symbolic_name c = None)"
| "built_as (NewSymbolCloseCommit name date) c =
     (sc_class c = SVNSymbolCloseCommit \<and> sc_cvs_revs c = []
      \<and> sc_symbolic_name c = Some name)"

definition carries_one :: "SVNCommit \<Rightarrow> bool" where
  "carries_one c = ((sc_cvs_revs c \<noteq> []) \<noteq> (sc_symbolic_name c \<noteq> None))"

fun empty_request :: "commit_request \<Rightarrow> bool" where
  "empty_request (NewInitialProjectCommit date) = True"
| "empty_request (NewPrimaryCommit c_revs) = (c_revs = [])"
| "empty_request (NewPreCommit name) = False"
| "empty_request (NewPostCommit motivating_revnum c_revs) = (c_revs = [])"
| "empty_request (NewSymbolCloseCommit name date) = False"

text \<open>
  The text of a symbol commit's log message for a symbolic name, of type tag
  when \<open>tag\<close> holds and of type branch otherwise.
\<close>

definition manufactured_msg :: "Ctx \<Rightarrow> bool \<Rightarrow> string \<Rightarrow> string" where
  "manufactured_msg ctx tag name =
     ''This commit was manufactured by cvs2svn to create ''
     @ (if tag then ''tag'' else ''branch'')
     @ (if length (ctx_clean_symbolic_name ctx name) < 13 then '' '' else [CHR 0x0A])
     @ [CHR 0x27] @ ctx_clean_symbolic_name ctx name @ [CHR 0x27] @ ''.''"

section \<open>Example inputs\<close>

text \<open>
  Concrete inputs on which the theorems below are instantiated.  The first is a
  file whose branch \<open>B\<close> sprouts from the live trunk revision 1.3 and holds a
  dead revision 1.3.2.1 followed by the live revision 1.3.2.2, as it stands
  after \<open>tree_completed\<close>.
\<close>

definition example_rev ::
  "nat \<Rightarrow> string \<Rightarrow> int \<Rightarrow> string \<Rightarrow> string option \<Rightarrow> string option \<Rightarrow> RevisionData" where
  "example_rev i r t st p c =
     (new_RevisionData i r t ''jrandom'' st [])\<lparr> rd_parent := p, rd_child := c \<rparr>"

definition issue_89_table :: rev_table where
  "issue_89_table =
     [(''1.3'', (example_rev 1 ''1.3'' 100 ''Exp'' None None)\<lparr> rd_branch_numbers := [''1.3.2''] \<rparr>),
      (''1.3.2.1'', example_rev 2 ''1.3.2.1'' 200 ''dead'' (Some ''1.3'') (Some ''1.3.2.2'')),
      (''1.3.2.2'', example_rev 3 ''1.3.2.2'' 300 ''Exp'' (Some ''1.3.2.1'') None)]"

definition example_cvs_file :: CVSFile where
  "example_cvs_file =
     \<lparr> cf_id = 1, cf_filename = ''/cvsroot/proj/file,v'',
       cf_canonical_filename = ''/cvsroot/proj/file,v'', cf_cvs_path = ''proj/file,v'',
       cf_in_attic = False, cf_executable = False, cf_file_size = 0, cf_mode = None,
       cf_default_branch = None \<rparr>"

definition issue_89_fdc :: FileDataCollector where
  "issue_89_fdc =
     \<lparr> fdc_cvs_file = example_cvs_file,
       sdc_known_symbols = [''B''],
       sdc_branches_data =
         [(''1.3.2'', \<lparr> bd_id = 0, bd_name = ''B'', bd_branch_number = ''1.3.2'',
                       bd_parent = ''1.3'', bd_child = Some ''1.3.2.1'' \<rparr>)],
       sdc_tags_data = [],
       fdc_rev_data = issue_89_table,
       fdc_rev_order = [''1.3'', ''1.3.2.1'', ''1.3.2.2''],
       fdc_primary_dependencies = [(''1.3.2.1'', ''1.3.2.2'')],
       fdc_default_branch = None,
       fdc_first_non_vendor_revision_date = None \<rparr>"

definition example_env :: Env where
  "example_env =
     \<lparr> env_symbol_transforms = [],
       env_get_cvs_path = drop 9,
       env_ctime = (\<lambda>t. Inr ''Thu Jan  1 00:00:00 1970''),
       env_sha_hexdigest = (\<lambda>s. s),
       env_stat = (\<lambda>p. Some (0, False)),
       env_exists = (\<lambda>p. False),
       env_parse = (\<lambda>p. ([], None)) \<rparr>"

text \<open>A configuration for the commit classes, in which \<open>T1\<close> is a tag.\<close>

definition example_ctx :: Ctx where
  "example_ctx =
     \<lparr> ctx_username = Some ''cvs2svn'', ctx_trunk_only = False,
       ctx_clean_symbolic_name = (\<lambda>s. s), ctx_repr = (\<lambda>s. s),
       ctx_is_tag_symbol = (\<lambda>s. s = ''T1''),
       ctx_cvs_items_db = (\<lambda>i. None), ctx_metadata_db = (\<lambda>d. None) \<rparr>"

text \<open>The commit that \<open>__setstate__\<close> restores for a pickled fill of the tag \<open>T1\<close>.\<close>

definition restored_tag_commit :: SVNCommit where
  "restored_tag_commit =
     (set_symbolic_name
        ((fst (SVNCommit_init example_ctx 7 SVNPreCommit ''Retrieved from disk'' (Some 5) None))
           \<lparr> sc_date := 0 \<rparr>)
        (Some ''T1''))
       \<lparr> sc_is_tag := Some 1 \<rparr>"

text \<open>One commit of each class, created in this order.\<close>

definition example_c_rev :: CVSRevision where
  "example_c_rev =
     \<lparr> cr_id = 1, cr_cvs_file = 1, cr_timestamp = 100, cr_digest = ''d'',
       cr_prev_id = None, cr_next_id = None, cr_op = OP_ADD, cr_rev = ''1.1'',
       cr_deltatext_exists = True, cr_lod = Trunk, cr_first_on_branch = True,
       cr_tags = [], cr_branches = [] \<rparr>"

definition example_requests :: "commit_request list" where
  "example_requests =
     [NewInitialProjectCommit 50, NewPrimaryCommit [example_c_rev], NewPreCommit ''T1'',
      NewPostCommit 2 [example_c_rev], NewSymbolCloseCommit ''T1'' 200]"

text \<open>
  A collector as \<open>_FileDataCollector.__init__\<close> leaves it, and the callbacks for
  a file with three trunk revisions committed in the same second.
\<close>

definition fresh_fdc :: FileDataCollector where
  "fresh_fdc =
     \<lparr> fdc_cvs_file = example_cvs_file,
       sdc_known_symbols = [], sdc_branches_data = [], sdc_tags_data = [],
       fdc_rev_data = [], fdc_rev_order = [], fdc_primary_dependencies = [],
       fdc_default_branch = None, fdc_first_non_vendor_revision_date = None \<rparr>"

definition same_second_events :: "sink_event list" where
  "same_second_events =
     [DefineRevision ''1.3'' 100 ''jrandom'' ''Exp'' [] (Some ''1.2''),
      DefineRevision ''1.2'' 100 ''jrandom'' ''Exp'' [] (Some ''1.1''),
      DefineRevision ''1.1'' 100 ''jrandom'' ''Exp'' [] None]"





definition same_second_fdc :: FileDataCollector where
  "same_second_fdc =
     fresh_fdc
       \<lparr> fdc_rev_data :=
           [(''1.3'', new_RevisionData 1 ''1.3'' 100 ''jrandom'' ''Exp'' []),
            (''1.2'', new_RevisionData 2 ''1.2'' 100 ''jrandom'' ''Exp'' []),
            (''1.1'', new_RevisionData 3 ''1.1'' 100 ''jrandom'' ''Exp'' [])],
         fdc_rev_order := [''1.3'', ''1.2'', ''1.1''],
         fdc_primary_dependencies := [(''1.2'', ''1.3''), (''1.1'', ''1.2'')] \<rparr>"






section \<open>Auxiliary facts\<close>

lemma bind_sum_eq_Some:
  "Option.bind m (\<lambda>r. case r of Inl e \<Rightarrow> h e | Inr v \<Rightarrow> g v) = Some y \<longleftrightarrow>
     (\<exists>e. m = Some (Inl e) \<and> h e = Some y) \<or> (\<exists>v. m = Some (Inr v) \<and> g v = Some y)"
  by (cases m) (auto split: sum.splits)

subsection \<open>The walk of \<open>_determine_operation\<close>\<close>

lemma parent_chain_nonempty: "parent_chain tab r c \<Longrightarrow> r \<noteq> [] \<Longrightarrow> c \<noteq> []"
  by (induction rule: parent_chain.induct) auto

lemma issue_89_walk_result:
  assumes "issue_89_walk tab cur opn = Some y"
  shows "\<forall>r. y = Inr r \<longrightarrow> r = opn \<or> r = OP_CHANGE"
  by (rule issue_89_walk.raw_induct
       [where P = "\<lambda>tab cur opn y. \<forall>r. y = Inr r \<longrightarrow> r = opn \<or> r = OP_CHANGE", OF _ assms])
     (fastforce split: option.splits if_splits)

lemma issue_89_walk_change:
  assumes "issue_89_walk tab cur opn = Some y"
  shows "\<forall>r. y = Inr r \<longrightarrow>
           (opn = OP_CHANGE \<longrightarrow> r = OP_CHANGE)
         \<and> (\<forall>c. c \<noteq> [] \<longrightarrow> parent_chain tab cur c \<longrightarrow> crossing tab c \<longrightarrow> r = OP_CHANGE)"
  apply (rule issue_89_walk.raw_induct
      [where P = "\<lambda>tab cur opn y. \<forall>r. y = Inr r \<longrightarrow>
           (opn = OP_CHANGE \<longrightarrow> r = OP_CHANGE)
         \<and> (\<forall>c. c \<noteq> [] \<longrightarrow> parent_chain tab cur c \<longrightarrow> crossing tab c \<longrightarrow> r = OP_CHANGE)",
       OF _ assms])
  subgoal premises prems for walk tab cur opn y
  proof (intro allI impI conjI)
    fix r assume "y = Inr r" and "opn = OP_CHANGE"
    with prems show "r = OP_CHANGE"
      by (fastforce split: option.splits if_splits)
  next
    fix r c
    assume y: "y = Inr r" and c: "c \<noteq> []" "parent_chain tab cur c" "crossing tab c"
    from c(2) show "r = OP_CHANGE"
    proof (cases rule: parent_chain.cases)
      case here
      with prems y c show ?thesis
        by (fastforce simp: crossing_def split: option.splits if_splits)
    next
      case (step d p)
      with prems y c show ?thesis
        by (fastforce split: option.splits if_splits)
    qed
  qed
  done

lemma determine_operation_result:
  assumes "determine_operation tab rev_data = Some (Inr opn)"
  shows "opn = OP_ADD \<Longrightarrow>
           rd_state rev_data \<noteq> ''dead''
         \<and> (rd_parent rev_data = None
            \<or> (\<exists>p. rd_parent rev_data = Some p
                    \<and> (case map_of tab p of None \<Rightarrow> True | Some pd \<Rightarrow> rd_state pd = ''dead'')))"
    and "opn = OP_DELETE \<Longrightarrow> rd_state rev_data = ''dead''"
  using assms issue_89_walk_result[of tab "rd_rev rev_data" _ "Inr opn"]
  unfolding determine_operation_def Let_def
  by (auto split: if_splits option.splits)

subsection \<open>What \<open>set_revision_info\<close> emits\<close>

lemma new_CVSRevision_Inr:
  assumes "new_CVSRevision fdc rev_data revision digest text lod tag_names branch_names
             = Some (Inr c_rev)"
  shows "determine_operation (fdc_rev_data fdc) rev_data = Some (Inr (cr_op c_rev))"
    and "get_rev_id (fdc_rev_data fdc) (Some revision) = Inr (Some (cr_id c_rev))"
    and "get_rev_id (fdc_rev_data fdc) (rd_parent rev_data) = Inr (cr_prev_id c_rev)"
    and "get_rev_id (fdc_rev_data fdc) (rd_child rev_data) = Inr (cr_next_id c_rev)"
    and "cr_first_on_branch c_rev = is_first_on_branch rev_data"
    and "cr_rev c_rev = revision"
    and "cr_timestamp c_rev = rd_timestamp rev_data"
    and "cr_lod c_rev = lod"
    and "cr_digest c_rev = digest"
  using assms unfolding new_CVSRevision_def
  by (auto simp: bind_sum_eq_Some split: option.splits sum.splits)

lemma set_revision_info_Inr:
  assumes "set_revision_info env cd fdc revision log text = Some (Inr fdc', cd')"
  shows "\<exists>rev_data fdc1 digest lod tag_names branch_names c_rev.
           map_of (fdc_rev_data fdc) revision = Some rev_data
         \<and> fdc_rev_data fdc1 = fdc_rev_data fdc
         \<and> revision_lod fdc1 revision = Inr lod
         \<and> new_CVSRevision fdc1 rev_data revision digest text lod tag_names branch_names
             = Some (Inr c_rev)
         \<and> cd_cvs_revs_db cd' = cd_cvs_revs_db cd @ [c_rev]
         \<and> cd_all_revs cd' = cd_all_revs cd @ [cr_id c_rev]
         \<and> cf_default_branch (fdc_cvs_file fdc')
             = (if revision = ''1.1'' \<and> log \<noteq> initial_revision_log then None
                else cf_default_branch (fdc_cvs_file fdc))"
proof -
  obtain rev_data where rd: "map_of (fdc_rev_data fdc) revision = Some rev_data"
    using assms by (cases "map_of (fdc_rev_data fdc) revision") (auto simp: set_revision_info_def)
  define digest where "digest = env_sha_hexdigest env (log @ [CHR 0x00] @ rd_author rev_data)"
  define cd1 where
    "cd1 = (if timestamp_was_adjusted rev_data
            then cd\<lparr> cd_resync := cd_resync cd
                       @ [(rd_original_timestamp rev_data, digest, rd_timestamp rev_data)] \<rparr>
            else cd)"
  define fdc1 where
    "fdc1 = (if revision = ''1.1'' \<and> log \<noteq> initial_revision_log
             then fdc\<lparr> fdc_cvs_file := (fdc_cvs_file fdc)\<lparr> cf_default_branch := None \<rparr> \<rparr>
             else fdc)"
  have cd1: "cd_cvs_revs_db cd1 = cd_cvs_revs_db cd" "cd_all_revs cd1 = cd_all_revs cd"
    by (simp_all add: cd1_def)
  have fdc1: "fdc_rev_data fdc1 = fdc_rev_data fdc"
    by (simp add: fdc1_def)
  have db: "cf_default_branch (fdc_cvs_file fdc1)
              = (if revision = ''1.1'' \<and> log \<noteq> initial_revision_log then None
                 else cf_default_branch (fdc_cvs_file fdc))"
    by (simp add: fdc1_def)
  from assms[unfolded set_revision_info_def rd] obtain lod tag_names branch_names c_rev where
        lod: "revision_lod fdc1 revision = Inr lod"
    and mk: "new_CVSRevision fdc1 rev_data revision digest text lod tag_names branch_names
               = Some (Inr c_rev)"
    and res: "fdc' = fdc1\<lparr> fdc_rev_data :=
                AList.update revision (rev_data\<lparr> rd_c_rev := Some c_rev \<rparr>) (fdc_rev_data fdc1) \<rparr>"
             "cd' = (if map_of (cd_metadata_db (add_cvs_revision cd1 c_rev)) digest = None
                     then (add_cvs_revision cd1 c_rev)\<lparr> cd_metadata_db :=
                            AList.update digest (rd_author rev_data, log)
                              (cd_metadata_db (add_cvs_revision cd1 c_rev)) \<rparr>
                     else add_cvs_revision cd1 c_rev)"
    unfolding option.case Let_def
    unfolding digest_def[symmetric]
    unfolding cd1_def[symmetric] fdc1_def[symmetric]
    by (auto simp: bind_sum_eq_Some split: sum.splits)
  have "cd_cvs_revs_db cd' = cd_cvs_revs_db cd @ [c_rev]"
       "cd_all_revs cd' = cd_all_revs cd @ [cr_id c_rev]"
       "cf_default_branch (fdc_cvs_file fdc') = cf_default_branch (fdc_cvs_file fdc1)"
    using cd1 by (simp_all add: res add_cvs_revision_def)
  with rd fdc1 lod mk db show ?thesis
    by (metis (no_types, lifting))
qed

subsection \<open>Reading off a concrete outcome\<close>

lemma outcome_InrE:
  assumes "case x of None \<Rightarrow> False | Some (Inl e, c) \<Rightarrow> False | Some (Inr f, c) \<Rightarrow> P f c"
  obtains f c where "x = Some (Inr f, c)" and "P f c"
proof (cases x)
  case None
  with assms show ?thesis by simp
next
  case (Some r)
  obtain a c where r: "r = (a, c)" by (cases r)
  show ?thesis
  proof (cases a)
    case (Inl e)
    with Some r assms show ?thesis by simp
  next
    case (Inr f)
    with Some r assms that show ?thesis by simp
  qed
qed

lemma restored_tag_commit_setstate:
  "setstate example_ctx 7 SVNPreCommit (5, [], None, Some ''T1'', 0)
     = (Inr restored_tag_commit, 7)"
  by code_simp

subsection \<open>Numbering of commit objects\<close>

lemma foldl_add_revision: "sc_symbolic_name (foldl add_revision c rs) = sc_symbolic_name c"
  "sc_revnum (foldl add_revision c rs) = sc_revnum c"
  "sc_class (foldl add_revision c rs) = sc_class c"
  by (induction rs arbitrary: c) (auto simp: add_revision_def)

lemma construct_facts:
  assumes "construct ctx k r = (c, k')"
  shows "sc_class c = SVNInitialProjectCommit \<Longrightarrow> sc_revnum c = 1 \<and> k' = k"
    and "sc_class c \<noteq> SVNInitialProjectCommit \<Longrightarrow> sc_revnum c = k \<and> k' = k + 1"
    and "\<not> (sc_cvs_revs c \<noteq> [] \<and> sc_symbolic_name c \<noteq> None)"
  using assms
  by (cases r; auto simp: new_SVNInitialProjectCommit_def new_SVNPrimaryCommit_def
        new_SVNPreCommit_def new_SVNPostCommit_def new_SVNSymbolCloseCommit_def
        SVNCommit_init_def Let_def set_log_msg_def set_symbolic_name_def
        set_motivating_revnum_def foldl_add_revision)+

lemma construct_all_facts:
  assumes "construct_all ctx k reqs = (cs, k')" and "2 \<le> k"
  shows "map sc_revnum (numbered_commits cs) = [k .. k + int (length (numbered_commits cs)) - 1]
       \<and> k' = k + int (length (numbered_commits cs))
       \<and> (\<forall>c \<in> set cs. (sc_revnum c = 1 \<longleftrightarrow> sc_class c = SVNInitialProjectCommit)
                       \<and> \<not> (sc_cvs_revs c \<noteq> [] \<and> sc_symbolic_name c \<noteq> None))"
  using assms
proof (induction reqs arbitrary: k cs k')
  case Nil
  then show ?case by (simp add: numbered_commits_def)
next
  case (Cons r rs)
  obtain c k1 where c: "construct ctx k r = (c, k1)" by (cases "construct ctx k r")
  obtain cs1 k2 where cs1: "construct_all ctx k1 rs = (cs1, k2)" by (cases "construct_all ctx k1 rs")
  from Cons.prems c cs1 have cs: "cs = c # cs1" and k': "k' = k2" by simp_all
  note f = construct_facts[OF c]
  show ?case
  proof (cases "sc_class c = SVNInitialProjectCommit")
    case True
    with f have "k1 = k" "sc_revnum c = 1" by simp_all
    with Cons.IH[OF cs1] Cons.prems(2) f(3) True show ?thesis
      by (simp add: cs k' numbered_commits_def)
  next
    case False
    with f have k1: "k1 = k + 1" and rc: "sc_revnum c = k" by simp_all
    from Cons.IH[OF cs1] Cons.prems(2) k1
    have ih: "map sc_revnum (numbered_commits cs1) = [k + 1 .. k + 1 + int (length (numbered_commits cs1)) - 1]"
       "k2 = k + 1 + int (length (numbered_commits cs1))"
       "\<forall>c \<in> set cs1. (sc_revnum c = 1 \<longleftrightarrow> sc_class c = SVNInitialProjectCommit)
                       \<and> \<not> (sc_cvs_revs c \<noteq> [] \<and> sc_symbolic_name c \<noteq> None)"
      by simp_all
    have "[k .. k + int (length (numbered_commits (c # cs1))) - 1] = k # [k + 1 .. k + 1 + int (length (numbered_commits cs1)) - 1]"
      using False by (subst upto_rec1) (simp_all add: numbered_commits_def add.commute)
    with ih rc False f(3) Cons.prems(2) show ?thesis
      by (simp add: cs k' numbered_commits_def)
  qed
qed

subsection \<open>The resync loop returns\<close>


















lemma parents_known_parent:
  assumes "parents_known tab" and "map_of tab k = Some d" and "rd_parent d = Some p"
  shows "map_of tab p \<noteq> None"
proof -
  from assms(2) have "k \<in> set (map fst tab)"
    using map_of_eq_None_iff[of tab k] by simp
  with assms show ?thesis
    by (auto simp: parents_known_def list_all_iff par_of_def)
qed










lemma same_second_fdc_reached:
  "run_parse example_env (new_CollectData 1) fresh_fdc same_second_events None
     = Some (Inr same_second_fdc, new_CollectData 4)"
  by code_simp


subsection \<open>Parent links that form a cycle\<close>






subsection \<open>The walk of \<open>_determine_operation\<close> returns\<close>

lemma length_filter_mono:
  assumes "\<And>x. x \<in> set xs \<Longrightarrow> P x \<Longrightarrow> Q x"
  shows "length (filter P xs) \<le> length (filter Q xs)"
  using assms by (induction xs) auto

lemma length_filter_strict:
  assumes "\<And>x. x \<in> set xs \<Longrightarrow> P x \<Longrightarrow> Q x" and "p \<in> set xs" and "Q p" and "\<not> P p"
  shows "length (filter P xs) < length (filter Q xs)"
  using assms
proof (induction xs)
  case Nil
  then show ?case by simp
next
  case (Cons a xs)
  have le: "length (filter P xs) \<le> length (filter Q xs)"
    using Cons.prems(1) by (intro length_filter_mono) simp
  show ?case
  proof (cases "a = p")
    case True
    with le Cons.prems(3,4) show ?thesis by simp
  next
    case False
    with Cons.prems have "p \<in> set xs" by simp
    from Cons.IH[OF _ this Cons.prems(3,4)] Cons.prems(1)
    have "length (filter P xs) < length (filter Q xs)" by simp
    moreover have "P a \<Longrightarrow> Q a" using Cons.prems(1) by simp
    ultimately show ?thesis by auto
  qed
qed

lemma parents_earlier_known: "parents_earlier tab \<Longrightarrow> parents_known tab"
  unfolding parents_earlier_def parents_known_def list_all_iff
  by (auto simp: parent_earlier_def par_of_def split: option.splits)

lemma parents_earlier_ranked:
  assumes "parents_earlier tab"
  shows "ranked (\<lambda>k. length (filter (\<lambda>k'. ts_of tab k' < ts_of tab k) (map fst tab))) tab"
  unfolding ranked_def
proof (intro allI impI)
  fix k p assume kp: "par_of tab k = Some p"
  then obtain d where d: "map_of tab k = Some d" and p: "rd_parent d = Some p"
    by (auto simp: par_of_def split: option.splits)
  from d have "k \<in> set (map fst tab)"
    using map_of_eq_None_iff[of tab k] by simp
  with assms have "parent_earlier tab k"
    by (auto simp: parents_earlier_def list_all_iff)
  with d p obtain pd where pd: "map_of tab p = Some pd"
    and lt: "rd_timestamp pd < rd_timestamp d"
    by (auto simp: parent_earlier_def split: option.splits)
  from pd have pin: "p \<in> set (map fst tab)"
    using map_of_eq_None_iff[of tab p] by simp
  have ts: "ts_of tab p < ts_of tab k" using d pd lt by (simp add: ts_of_def)
  show "length (filter (\<lambda>k'. ts_of tab k' < ts_of tab p) (map fst tab))
          < length (filter (\<lambda>k'. ts_of tab k' < ts_of tab k) (map fst tab))"
    by (rule length_filter_strict[OF _ pin]) (use ts in auto)
qed

lemma issue_89_walk_returns:
  assumes rk: "ranked rk tab" and pk: "parents_known tab" and "map_of tab cur \<noteq> None"
  shows "\<exists>r. issue_89_walk tab cur opn = Some (Inr r)"
  using assms(3)
proof (induction "rk cur" arbitrary: cur opn rule: less_induct)
  case less
  from less.prems obtain d where d: "map_of tab cur = Some d" by auto
  show ?case
  proof (cases "rd_parent d")
    case None
    with d show ?thesis by (subst issue_89_walk.simps) simp
  next
    case (Some p)
    from parents_known_parent[OF pk d Some] obtain pd where pd: "map_of tab p = Some pd"
      by auto
    from rk d Some have "rk p < rk cur"
      by (auto simp: ranked_def par_of_def split: option.splits)
    from less.hyps[OF this] pd have ih: "\<exists>r. issue_89_walk tab p o' = Some (Inr r)" for o'
      by simp
    from ih[of opn] ih[of OP_CHANGE] d Some pd show ?thesis
      by (subst issue_89_walk.simps) simp
  qed
qed

subsection \<open>What the constructors store\<close>

lemma foldl_add_revision_revs: "sc_cvs_revs (foldl add_revision c rs) = sc_cvs_revs c @ rs"
  by (induction rs arbitrary: c) (auto simp: add_revision_def)

lemma construct_built: "construct ctx k r = (c, k') \<Longrightarrow> built_as r c"
  by (cases r; auto simp: new_SVNInitialProjectCommit_def new_SVNPrimaryCommit_def
        new_SVNPreCommit_def new_SVNPostCommit_def new_SVNSymbolCloseCommit_def
        SVNCommit_init_def Let_def set_log_msg_def set_symbolic_name_def
        set_motivating_revnum_def foldl_add_revision foldl_add_revision_revs)

lemma built_as_carries: "built_as r c \<Longrightarrow> carries_one c \<longleftrightarrow> \<not> empty_request r"
  by (cases r) (auto simp: carries_one_def)

lemma construct_all_built:
  assumes "construct_all ctx k reqs = (cs, k')"
  shows "list_all2 (\<lambda>r c. built_as r c \<and> (carries_one c \<longleftrightarrow> \<not> empty_request r)) reqs cs"
  using assms
proof (induction reqs arbitrary: k cs k')
  case Nil
  then show ?case by simp
next
  case (Cons r rs)
  obtain c k1 where c: "construct ctx k r = (c, k1)" by (cases "construct ctx k r")
  obtain cs1 k2 where cs1: "construct_all ctx k1 rs = (cs1, k2)"
    by (cases "construct_all ctx k1 rs")
  from Cons.prems c cs1 have cs: "cs = c # cs1" by simp
  from construct_built[OF c] built_as_carries[of r c] Cons.IH[OF cs1] show ?case
    by (simp add: cs)
qed

lemma restore_revisions_name:
  "restore_revisions ctx keys m c = Inr c' \<Longrightarrow> sc_symbolic_name c' = sc_symbolic_name c"
  by (induction ctx keys m c rule: restore_revisions.induct)
     (auto simp: add_revision_def set_log_msg_def set_author_def Let_def
           split: option.splits)

lemma setstate_never_both:
  assumes "setstate ctx k cls st = (Inr c, k')"
  shows "\<not> (sc_cvs_revs c \<noteq> [] \<and> sc_symbolic_name c \<noteq> None)"
proof -
  obtain revnum keys m name date where st: "st = (revnum, keys, m, name, date)"
    by (cases st)
  obtain c0 k0 where c0: "SVNCommit_init ctx k cls ''Retrieved from disk'' (Some revnum) None
                            = (c0, k0)"
    by (cases "SVNCommit_init ctx k cls ''Retrieved from disk'' (Some revnum) None")
  then have n0: "sc_symbolic_name c0 = None"
    by (auto simp: SVNCommit_init_def Let_def split: if_splits)
  from assms st c0 obtain c1 where c1: "restore_revisions ctx keys None c0 = Inr c1"
    by (cases "restore_revisions ctx keys None c0") (auto simp: setstate_def)
  from restore_revisions_name[OF c1] n0 have n1: "sc_symbolic_name c1 = None" by simp
  from assms st c0 c1 n1 show ?thesis
    by (auto simp: setstate_def Let_def set_symbolic_name_def set_motivating_revnum_def
             split: if_splits)
qed

lemma setstate_symbol:
  assumes "setstate ctx k cls (revnum, keys, m, Some name, date) = (Inr c, k')"
      and "\<not> ctx_trunk_only ctx" and "name \<noteq> []"
  shows "sc_symbolic_name c = Some name"
    and "(sc_is_tag c \<noteq> None \<and> sc_is_tag c \<noteq> Some 0) = ctx_is_tag_symbol ctx name"
proof -
  obtain c0 k0 where c0: "SVNCommit_init ctx k cls ''Retrieved from disk'' (Some revnum) None
                            = (c0, k0)"
    by (cases "SVNCommit_init ctx k cls ''Retrieved from disk'' (Some revnum) None")
  then have t0: "sc_is_tag c0 = None"
    by (auto simp: SVNCommit_init_def Let_def split: if_splits)
  from assms(1) c0 obtain c1 where c1: "restore_revisions ctx keys None c0 = Inr c1"
    by (cases "restore_revisions ctx keys None c0") (auto simp: setstate_def)
  have "sc_is_tag c' = sc_is_tag c''" if "restore_revisions ctx ks mm c'' = Inr c'"
    for ks mm c'' c'
    using that
    by (induction ctx ks mm c'' rule: restore_revisions.induct)
       (auto simp: add_revision_def set_log_msg_def set_author_def Let_def
             split: option.splits)
  from this[OF c1] t0 have t1: "sc_is_tag c1 = None" by simp
  from assms c0 c1 t1 show "sc_symbolic_name c = Some name"
    by (auto simp: setstate_def Let_def set_symbolic_name_def set_motivating_revnum_def
             split: if_splits)
  from assms c0 c1 t1
  show "(sc_is_tag c \<noteq> None \<and> sc_is_tag c \<noteq> Some 0) = ctx_is_tag_symbol ctx name"
    by (auto simp: setstate_def Let_def set_symbolic_name_def set_motivating_revnum_def
             split: if_splits)
qed
subsection \<open>A file with two trunk revisions\<close>











subsection \<open>A file with a vendor branch\<close>









section \<open>The claims\<close>

subsection \<open>Operations of emitted revisions\<close>

text \<open>
  Claim C2.  Whenever \<open>set_revision_info\<close> returns, it has appended exactly one
  \<open>CVSRevision\<close> to the revision database, for the revision it was called with.
  If that record's operation is \<open>OP_ADD\<close>, the revision has no parent or its
  parent is in state \<open>dead\<close>; if it is \<open>OP_DELETE\<close>, the revision itself is in
  state \<open>dead\<close>.  The operation is the one \<open>_determine_operation\<close> returns,
  after its walk for dead predecessors on a branch.
\<close>

theorem add_and_delete_operations:
  assumes "set_revision_info env cd fdc revision log text = Some (Inr fdc', cd')"
  shows "\<exists>rev_data c_rev.
           map_of (fdc_rev_data fdc) revision = Some rev_data
         \<and> cd_cvs_revs_db cd' = cd_cvs_revs_db cd @ [c_rev]
         \<and> cr_rev c_rev = revision
         \<and> (cr_op c_rev = OP_ADD \<longrightarrow>
              rd_parent rev_data = None
              \<or> (\<exists>p pd. rd_parent rev_data = Some p \<and> map_of (fdc_rev_data fdc) p = Some pd
                         \<and> rd_state pd = ''dead''))
         \<and> (cr_op c_rev = OP_DELETE \<longrightarrow> rd_state rev_data = ''dead'')"
proof -
  from set_revision_info_Inr[OF assms]
  obtain rev_data fdc1 digest lod tag_names branch_names c_rev where
        rd: "map_of (fdc_rev_data fdc) revision = Some rev_data"
    and tab: "fdc_rev_data fdc1 = fdc_rev_data fdc"
    and mk: "new_CVSRevision fdc1 rev_data revision digest text lod tag_names branch_names
               = Some (Inr c_rev)"
    and db: "cd_cvs_revs_db cd' = cd_cvs_revs_db cd @ [c_rev]"
    by auto
  note f = new_CVSRevision_Inr[OF mk, unfolded tab]
  note r = determine_operation_result[OF f(1)]
  have add: "rd_parent rev_data = None
              \<or> (\<exists>p pd. rd_parent rev_data = Some p \<and> map_of (fdc_rev_data fdc) p = Some pd
                         \<and> rd_state pd = ''dead'')" if "cr_op c_rev = OP_ADD"
    using r(1)[OF that] f(3) by (auto simp: get_rev_id_def split: option.splits)
  from rd db f(6) add r(2) show ?thesis by blast
qed

text \<open>The dead revision 1.3.2.1 of the example file is emitted as a deletion.\<close>

theorem add_and_delete_operations_witness:
  "\<exists>fdc' cd' d c_rev.
      set_revision_info example_env (new_CollectData 1) issue_89_fdc ''1.3.2.1'' ''gone'' []
        = Some (Inr fdc', cd')
    \<and> map_of (fdc_rev_data issue_89_fdc) ''1.3.2.1'' = Some d
    \<and> cd_cvs_revs_db cd' = cd_cvs_revs_db (new_CollectData 1) @ [c_rev]
    \<and> cr_op c_rev = OP_DELETE \<and> rd_state d = ''dead''"
proof -
  have "case set_revision_info example_env (new_CollectData 1) issue_89_fdc ''1.3.2.1'' ''gone'' []
        of None \<Rightarrow> False | Some (Inl e, c) \<Rightarrow> False
         | Some (Inr f, c) \<Rightarrow> map cr_op (cd_cvs_revs_db c) = [OP_DELETE]"
    by code_simp
  then obtain f c where x: "set_revision_info example_env (new_CollectData 1) issue_89_fdc
                              ''1.3.2.1'' ''gone'' [] = Some (Inr f, c)"
       and o: "map cr_op (cd_cvs_revs_db c) = [OP_DELETE]"
    by (rule outcome_InrE)
  from add_and_delete_operations[OF x] obtain d c_rev where
        d: "map_of (fdc_rev_data issue_89_fdc) ''1.3.2.1'' = Some d"
    and db: "cd_cvs_revs_db c = cd_cvs_revs_db (new_CollectData 1) @ [c_rev]"
    and del: "cr_op c_rev = OP_DELETE \<longrightarrow> rd_state d = ''dead''"
    by blast
  from o db have "cr_op c_rev = OP_DELETE"
    by (simp add: new_CollectData_def)
  with x d db del show ?thesis
    by blast
qed

text \<open>
  Claim C3.  Take the table as \<open>tree_completed\<close> leaves it: every parent is in
  the table and strictly earlier than its child.  Let \<open>R\<close> be a branch revision
  whose state is not \<open>dead\<close>, and let the parent links from \<open>R\<close> lead to a
  revision \<open>c\<close> whose step to its parent crosses lines of development, with \<open>c\<close>
  dead and the parent not dead.  Then \<open>_determine_operation\<close> returns for \<open>R\<close>,
  and what it returns is \<open>OP_CHANGE\<close>.  The instance below is the file with live
  1.3, dead 1.3.2.1 and live 1.3.2.2: revision 1.3.2.2 is a change, not an add.
\<close>

theorem dead_branch_start_gives_change:
  assumes "parents_earlier tab"
      and "is_branch_revision (rd_rev rev_data)"
      and "rd_state rev_data \<noteq> ''dead''"
      and "parent_chain tab (rd_rev rev_data) c"
      and "crossing tab c"
  shows "determine_operation tab rev_data = Some (Inr OP_CHANGE)"
proof -
  have ne: "rd_rev rev_data \<noteq> []"
    using assms(2) by (auto simp: is_branch_revision_def count_dots_def)
  have c: "c \<noteq> []" by (rule parent_chain_nonempty[OF assms(4) ne])
  have known: "map_of tab (rd_rev rev_data) \<noteq> None"
    using assms(4)
  proof (cases rule: parent_chain.cases)
    case here
    with assms(5) show ?thesis by (auto simp: crossing_def split: option.splits)
  next
    case (step d p)
    then show ?thesis by simp
  qed
  define o0 where "o0 = (if (case rd_parent rev_data of None \<Rightarrow> None | Some p \<Rightarrow> map_of tab p) = None
                            \<or> rd_state (the (case rd_parent rev_data of None \<Rightarrow> None
                                               | Some p \<Rightarrow> map_of tab p)) = ''dead''
                         then OP_ADD else OP_CHANGE)"
  have det: "determine_operation tab rev_data = issue_89_walk tab (rd_rev rev_data) o0"
    using assms(2,3) by (simp add: determine_operation_def Let_def o0_def)
  from issue_89_walk_returns[OF parents_earlier_ranked[OF assms(1)]
         parents_earlier_known[OF assms(1)] known, of o0]
  obtain r where r: "issue_89_walk tab (rd_rev rev_data) o0 = Some (Inr r)" by blast
  from issue_89_walk_change[OF r] c assms(4,5) have "r = OP_CHANGE" by blast
  with det r show ?thesis by simp
qed

theorem dead_branch_start_gives_change_witness:
  "parents_earlier issue_89_table
   \<and> map_of issue_89_table ''1.3.2.2''
       = Some (example_rev 3 ''1.3.2.2'' 300 ''Exp'' (Some ''1.3.2.1'') None)
   \<and> is_branch_revision ''1.3.2.2''
   \<and> parent_chain issue_89_table ''1.3.2.2'' ''1.3.2.1''
   \<and> crossing issue_89_table ''1.3.2.1''
   \<and> determine_operation issue_89_table
         (example_rev 3 ''1.3.2.2'' 300 ''Exp'' (Some ''1.3.2.1'') None)
       = Some (Inr OP_CHANGE)"
proof -
  let ?d = "example_rev 3 ''1.3.2.2'' 300 ''Exp'' (Some ''1.3.2.1'') None"
  have r: "rd_rev ?d = ''1.3.2.2''" by code_simp
  have e: "parents_earlier issue_89_table" by code_simp
  have b: "is_branch_revision (rd_rev ?d)" by code_simp
  have s: "rd_state ?d \<noteq> ''dead''" by code_simp
  have m: "map_of issue_89_table ''1.3.2.2'' = Some ?d" by code_simp
  have p: "rd_parent ?d = Some ''1.3.2.1''" by code_simp
  have ch: "parent_chain issue_89_table (rd_rev ?d) ''1.3.2.1''"
    unfolding r by (rule parent_chain.step[OF m p _ _ parent_chain.here]) simp_all
  have cr: "crossing issue_89_table ''1.3.2.1''" by code_simp
  from dead_branch_start_gives_change[OF e b s ch cr] e m b ch cr show ?thesis
    unfolding r by simp
qed

text \<open>
  Claim C10.  The record that \<open>set_revision_info\<close> emits for a revision has its
  first-on-branch flag set exactly when the revision has no parent or its
  number and its parent's number have different numbers of dots (hence of
  components).  In particular a revision without parent is flagged even when it
  is a trunk revision, whose line of development is \<open>Trunk\<close>.  The revision is
  stored under its own number, as \<open>define_revision\<close> stores it, and a parent
  number is not the empty string.
\<close>

theorem first_on_branch_flag:
  assumes "set_revision_info env cd fdc revision log text = Some (Inr fdc', cd')"
      and "map_of (fdc_rev_data fdc) revision = Some rev_data"
      and "rd_rev rev_data = revision"
      and "rd_parent rev_data \<noteq> Some []"
  shows "\<exists>c_rev. cd_cvs_revs_db cd' = cd_cvs_revs_db cd @ [c_rev]
           \<and> cr_rev c_rev = revision
           \<and> (cr_first_on_branch c_rev \<longleftrightarrow>
                rd_parent rev_data = None
                \<or> count_dots revision \<noteq> count_dots (the (rd_parent rev_data)))
           \<and> (rd_parent rev_data = None \<and> is_trunk_revision revision
                \<longrightarrow> cr_first_on_branch c_rev \<and> cr_lod c_rev = Trunk)"
proof -
  from set_revision_info_Inr[OF assms(1)] assms(2)
  obtain fdc1 digest lod tag_names branch_names c_rev where
        lod: "revision_lod fdc1 revision = Inr lod"
    and mk: "new_CVSRevision fdc1 rev_data revision digest text lod tag_names branch_names
               = Some (Inr c_rev)"
    and db: "cd_cvs_revs_db cd' = cd_cvs_revs_db cd @ [c_rev]"
    by auto
  note f = new_CVSRevision_Inr[OF mk]
  have flag: "cr_first_on_branch c_rev \<longleftrightarrow>
                rd_parent rev_data = None
                \<or> count_dots revision \<noteq> count_dots (the (rd_parent rev_data))"
    using assms(3,4) by (auto simp: f(5) is_first_on_branch_def split: option.splits)
  have trunk: "is_trunk_revision revision \<Longrightarrow> cr_lod c_rev = Trunk"
    using lod by (auto simp: f(8) revision_lod_def is_trunk_revision_def is_branch_revision_def)
  from db flag trunk f(6) show ?thesis by auto
qed

text \<open>The root 1.3 of the example file: no parent, on trunk, and flagged.\<close>

theorem first_on_branch_flag_witness:
  "\<exists>fdc' cd' d c_rev.
      set_revision_info example_env (new_CollectData 1) issue_89_fdc ''1.3'' ''added'' ''text''
        = Some (Inr fdc', cd')
    \<and> map_of (fdc_rev_data issue_89_fdc) ''1.3'' = Some d
    \<and> rd_rev d = ''1.3'' \<and> rd_parent d = None \<and> is_trunk_revision ''1.3''
    \<and> cd_cvs_revs_db cd' = cd_cvs_revs_db (new_CollectData 1) @ [c_rev]
    \<and> cr_first_on_branch c_rev \<and> cr_lod c_rev = Trunk"
proof -
  let ?d = "(example_rev 1 ''1.3'' 100 ''Exp'' None None)\<lparr> rd_branch_numbers := [''1.3.2''] \<rparr>"
  have "case set_revision_info example_env (new_CollectData 1) issue_89_fdc ''1.3'' ''added''
               ''text''
        of None \<Rightarrow> False | Some (Inl e, c) \<Rightarrow> False | Some (Inr f, c) \<Rightarrow> True"
    by code_simp
  then obtain f c where x: "set_revision_info example_env (new_CollectData 1) issue_89_fdc
                              ''1.3'' ''added'' ''text'' = Some (Inr f, c)"
    by (rule outcome_InrE)
  have m: "map_of (fdc_rev_data issue_89_fdc) ''1.3'' = Some ?d" by code_simp
  have r: "rd_rev ?d = ''1.3''" by code_simp
  have p: "rd_parent ?d = None" by code_simp
  have p': "rd_parent ?d \<noteq> Some []" by code_simp
  have t: "is_trunk_revision ''1.3''" by code_simp
  from first_on_branch_flag[OF x m r p'] p t obtain c_rev where
    "cd_cvs_revs_db c = cd_cvs_revs_db (new_CollectData 1) @ [c_rev]"
    "cr_first_on_branch c_rev" "cr_lod c_rev = Trunk"
    by blast
  with x m r p t show ?thesis
    by blast
qed

subsection \<open>Log messages of symbol commits\<close>

text \<open>
  Claim C9, as amended.  For a commit that fills a symbolic name,
  \<open>get_log_msg\<close> returns the text \<open>This commit was manufactured by cvs2svn to
  create\<close>, a space, the type, the separator, and the cleaned symbolic name
  between single quotes, followed by a full stop; the separator is a space when
  the cleaned name has fewer than 13 characters and a newline otherwise.  The
  type follows the commit's \<open>is_tag\<close>, which only \<open>__setstate__\<close> sets.  So for
  a commit that \<open>__setstate__\<close> has restored with a symbolic name, outside a
  trunk-only conversion, the type is \<open>tag\<close> when the symbol is a tag and
  \<open>branch\<close> otherwise; and for a commit as the constructors of \<open>SVNPreCommit\<close>
  and \<open>SVNSymbolCloseCommit\<close> leave it, the type is \<open>branch\<close>, whatever the
  symbol is.
\<close>

theorem symbolic_name_log_msg:
  "(\<forall>c :: SVNCommit. sc_symbolic_name c = Some name \<longrightarrow>
        get_log_msg ctx c
          = Inr (manufactured_msg ctx (sc_is_tag c \<noteq> None \<and> sc_is_tag c \<noteq> Some 0) name))
   \<and> (\<forall>c k'. setstate ctx k cls (revnum, keys, m, Some name, date) = (Inr c, k')
              \<and> \<not> ctx_trunk_only ctx \<and> name \<noteq> [] \<longrightarrow>
        get_log_msg ctx c = Inr (manufactured_msg ctx (ctx_is_tag_symbol ctx name) name))
   \<and> get_log_msg ctx (fst (new_SVNPreCommit ctx k name))
       = Inr (manufactured_msg ctx False name)
   \<and> get_log_msg ctx (fst (new_SVNSymbolCloseCommit ctx k name date))
       = Inr (manufactured_msg ctx False name)"
proof (intro conjI allI impI)
  fix c :: SVNCommit assume "sc_symbolic_name c = Some name"
  then show "get_log_msg ctx c
          = Inr (manufactured_msg ctx (sc_is_tag c \<noteq> None \<and> sc_is_tag c \<noteq> Some 0) name)"
    by (simp add: get_log_msg_def log_msg_for_symbolic_name_commit_def Let_def
          manufactured_msg_def)
next
  fix c :: SVNCommit and k' :: int
  assume a: "setstate ctx k cls (revnum, keys, m, Some name, date) = (Inr c, k')
              \<and> \<not> ctx_trunk_only ctx \<and> name \<noteq> []"
  then have s: "setstate ctx k cls (revnum, keys, m, Some name, date) = (Inr c, k')"
    and t: "\<not> ctx_trunk_only ctx" and n: "name \<noteq> []" by simp_all
  note f = setstate_symbol[OF s t n]
  show "get_log_msg ctx c = Inr (manufactured_msg ctx (ctx_is_tag_symbol ctx name) name)"
    using f(1) unfolding f(2)[symmetric]
    by (simp add: get_log_msg_def log_msg_for_symbolic_name_commit_def Let_def
          manufactured_msg_def)
next
  show "get_log_msg ctx (fst (new_SVNPreCommit ctx k name))
       = Inr (manufactured_msg ctx False name)"
    by (simp add: new_SVNPreCommit_def SVNCommit_init_def Let_def set_symbolic_name_def
          get_log_msg_def log_msg_for_symbolic_name_commit_def manufactured_msg_def)
next
  show "get_log_msg ctx (fst (new_SVNSymbolCloseCommit ctx k name date))
       = Inr (manufactured_msg ctx False name)"
    by (simp add: new_SVNSymbolCloseCommit_def SVNCommit_init_def Let_def
          set_symbolic_name_def get_log_msg_def log_msg_for_symbolic_name_commit_def
          manufactured_msg_def)
qed

text \<open>The restored fill of the tag \<open>T1\<close>: its message says \<open>tag\<close>.\<close>

theorem symbolic_name_log_msg_witness:
  "setstate example_ctx 7 SVNPreCommit (5, [], None, Some ''T1'', 0)
     = (Inr restored_tag_commit, 7)
   \<and> \<not> ctx_trunk_only example_ctx
   \<and> ctx_is_tag_symbol example_ctx ''T1''
   \<and> get_log_msg example_ctx restored_tag_commit
       = Inr (''This commit was manufactured by cvs2svn to create tag ''
              @ [CHR 0x27] @ ''T1'' @ [CHR 0x27] @ ''.'')"
proof -
  have t: "\<not> ctx_trunk_only example_ctx" by code_simp
  have g: "ctx_is_tag_symbol example_ctx ''T1''" by code_simp
  have c: "ctx_clean_symbolic_name example_ctx ''T1'' = ''T1''" by code_simp
  from symbolic_name_log_msg[of "''T1''" example_ctx 7 SVNPreCommit 5 "[]" None 0]
       restored_tag_commit_setstate t
  have "get_log_msg example_ctx restored_tag_commit
          = Inr (manufactured_msg example_ctx (ctx_is_tag_symbol example_ctx ''T1'') ''T1'')"
    by blast
  with g c restored_tag_commit_setstate t show ?thesis
    by (simp add: manufactured_msg_def)
qed

text \<open>
  The claim as first stated gives the type \<open>tag\<close> whenever the symbol is a tag.
  \<open>T1\<close> is a tag, and the message of a newly constructed \<open>SVNPreCommit\<close> for
  \<open>T1\<close> says \<open>branch\<close>.
\<close>

theorem new_tag_commit_says_branch:
  "ctx_is_tag_symbol example_ctx ''T1''
   \<and> get_log_msg example_ctx (fst (new_SVNPreCommit example_ctx initial_revnum_counter ''T1''))
       = Inr (''This commit was manufactured by cvs2svn to create branch ''
              @ [CHR 0x27] @ ''T1'' @ [CHR 0x27] @ ''.'')"
  by code_simp

subsection \<open>Commit objects\<close>

text \<open>
  Claim C6, as amended.  Let commits be created by the constructors of the five
  subclasses, in any order, starting from the initial value 2 of the shared
  counter.  Then a commit has revision number 1 exactly when it is an
  \<open>SVNInitialProjectCommit\<close>; the other commits are numbered 2, 3, ... in
  creation order; no commit carries both a non-empty list of \<open>CVSRevision\<close>s
  and a symbolic name; and every commit holds what its constructor was given:
  an \<open>SVNPreCommit\<close> and an \<open>SVNSymbolCloseCommit\<close> the symbolic name and no
  revisions, an \<open>SVNPrimaryCommit\<close> and an \<open>SVNPostCommit\<close> the revisions and
  no symbolic name, the initial commit neither.  So a commit carries revisions
  or a symbolic name, and not both, unless it is the initial commit or was
  given an empty list of revisions.  A commit that \<open>__setstate__\<close> restores
  never carries both either.
\<close>

theorem commit_numbering:
  assumes "construct_all ctx initial_revnum_counter reqs = (cs, counter)"
  shows "(\<forall>c \<in> set cs. sc_revnum c = 1 \<longleftrightarrow> sc_class c = SVNInitialProjectCommit)
       \<and> map sc_revnum (numbered_commits cs) = [2 .. 1 + int (length (numbered_commits cs))]
       \<and> (\<forall>c \<in> set cs. \<not> (sc_cvs_revs c \<noteq> [] \<and> sc_symbolic_name c \<noteq> None))
       \<and> list_all2 (\<lambda>r c. built_as r c \<and> (carries_one c \<longleftrightarrow> \<not> empty_request r)) reqs cs
       \<and> (\<forall>k cls st c k'. setstate ctx k cls st = (Inr c, k')
             \<longrightarrow> \<not> (sc_cvs_revs c \<noteq> [] \<and> sc_symbolic_name c \<noteq> None))"
proof -
  have "(2::int) \<le> initial_revnum_counter"
    by (simp add: initial_revnum_counter_def)
  from construct_all_facts[OF assms this]
  have "(\<forall>c \<in> set cs. sc_revnum c = 1 \<longleftrightarrow> sc_class c = SVNInitialProjectCommit)
       \<and> map sc_revnum (numbered_commits cs) = [2 .. 1 + int (length (numbered_commits cs))]
       \<and> (\<forall>c \<in> set cs. \<not> (sc_cvs_revs c \<noteq> [] \<and> sc_symbolic_name c \<noteq> None))"
    by (simp add: initial_revnum_counter_def add.commute)
  moreover note construct_all_built[OF assms]
  moreover have "\<forall>k cls st c k'. setstate ctx k cls st = (Inr c, k')
             \<longrightarrow> \<not> (sc_cvs_revs c \<noteq> [] \<and> sc_symbolic_name c \<noteq> None)"
    using setstate_never_both by blast
  ultimately show ?thesis by (intro conjI) blast+
qed

text \<open>
  One commit of each class: the numbers are 1 for the initial commit and 2 to 5,
  and each commit but the initial one carries revisions or a symbolic name.
\<close>

theorem commit_numbering_witness:
  "\<exists>cs counter.
      construct_all example_ctx initial_revnum_counter example_requests = (cs, counter)
    \<and> map sc_revnum cs = [1, 2, 3, 4, 5]
    \<and> map carries_one cs = [False, True, True, True, True]
    \<and> map sc_revnum (numbered_commits cs) = [2 .. 1 + int (length (numbered_commits cs))]
    \<and> list_all2 (\<lambda>r c. built_as r c \<and> carries_one c = (\<not> empty_request r))
        example_requests cs"
proof -
  obtain cs counter where
    c: "construct_all example_ctx initial_revnum_counter example_requests = (cs, counter)"
    by (cases "construct_all example_ctx initial_revnum_counter example_requests")
  have "map sc_revnum (fst (construct_all example_ctx initial_revnum_counter example_requests))
          = [1, 2, 3, 4, 5]"
    by code_simp
  with c have n: "map sc_revnum cs = [1, 2, 3, 4, 5]"
    by simp
  have "map carries_one (fst (construct_all example_ctx initial_revnum_counter example_requests))
          = [False, True, True, True, True]"
    by code_simp
  with c have o: "map carries_one cs = [False, True, True, True, True]"
    by simp
  from commit_numbering[OF c]
  have m: "map sc_revnum (numbered_commits cs) = [2 .. 1 + int (length (numbered_commits cs))]"
    and b: "list_all2 (\<lambda>r c. built_as r c \<and> carries_one c = (\<not> empty_request r))
              example_requests cs"
    by blast+
  show ?thesis
    by (rule exI[of _ cs], rule exI[of _ counter], intro conjI) (rule c n o m b)+
qed

text \<open>
  The claim as first stated asks every commit object to carry revisions or a
  symbolic name, and to have revision number 1 only as the initial commit.  The
  initial commit carries neither, and so does an \<open>SVNPrimaryCommit\<close> made from an
  empty list.  An \<open>SVNCommit\<close> made with the explicit revision number 1 has that
  number without being the initial commit, and \<open>add_revision\<close> on an
  \<open>SVNPreCommit\<close> gives a commit that carries both.
\<close>

theorem commits_outside_the_claim:
  "sc_class (fst (new_SVNInitialProjectCommit example_ctx initial_revnum_counter 50))
     = SVNInitialProjectCommit
   \<and> sc_revnum (fst (new_SVNInitialProjectCommit example_ctx initial_revnum_counter 50)) = 1
   \<and> sc_cvs_revs (fst (new_SVNInitialProjectCommit example_ctx initial_revnum_counter 50)) = []
   \<and> sc_symbolic_name (fst (new_SVNInitialProjectCommit example_ctx initial_revnum_counter 50))
       = None
   \<and> sc_cvs_revs (fst (new_SVNPrimaryCommit example_ctx initial_revnum_counter [])) = []
   \<and> sc_symbolic_name (fst (new_SVNPrimaryCommit example_ctx initial_revnum_counter [])) = None
   \<and> sc_revnum (fst (SVNCommit_init example_ctx initial_revnum_counter PlainSVNCommit
                       ''commit'' (Some 1) None)) = 1
   \<and> sc_cvs_revs (add_revision
                    (fst (new_SVNPreCommit example_ctx initial_revnum_counter ''T1''))
                    example_c_rev) = [example_c_rev]
   \<and> sc_symbolic_name (add_revision
                         (fst (new_SVNPreCommit example_ctx initial_revnum_counter ''T1''))
                         example_c_rev) = Some ''T1''"
  by code_simp

subsection \<open>Timestamp resynchronisation\<close>




subsection \<open>Two commits in the same second\<close>




subsection \<open>The inferred default branch\<close>



end
